theory Spec2Isabelle
  imports Complex_Main "HOL-Library.AList"
begin

section \<open>Strings as the command-line handler uses them\<close>

text \<open>
  The sources are Python 2 (\<^verbatim>\<open>xrange\<close> in \<^verbatim>\<open>_run_tsuites\<close>): a \<^verbatim>\<open>str\<close> is a
  byte string, modelled as \<^typ>\<open>string\<close>. Python names that start with an underscore
  lose it here (\<^verbatim>\<open>_parse_runlist\<close> is \<open>parse_runlist\<close>).
\<close>

definition LF :: char where
  "LF = CHR 0x0A"

definition CR :: char where
  "CR = CHR 0x0D"

text \<open>\<^verbatim>\<open>s.startswith(p)\<close>\<close>

definition startswith :: "string \<Rightarrow> string \<Rightarrow> bool" where
  "startswith s p = (take (length p) s = p)"

text \<open>
  \<^verbatim>\<open>s.splitlines()\<close> of a byte string: a line ends at \<^verbatim>\<open>\n\<close>, \<^verbatim>\<open>\r\<close> or \<^verbatim>\<open>\r\n\<close>,
  the line ends are not kept, and text after the last line end is a line only when it
  is not empty. The first argument is the line read so far.
\<close>

fun splitlines_from :: "string \<Rightarrow> string \<Rightarrow> string list" where
  "splitlines_from cur [] = (if cur = [] then [] else [cur])"
| "splitlines_from cur (c # cs) =
     (if c = LF then cur # splitlines_from [] cs
      else if c = CR then
        (case cs of
           [] \<Rightarrow> cur # splitlines_from [] cs
         | d # ds \<Rightarrow>
             if d = LF then cur # splitlines_from [] ds
             else cur # splitlines_from [] cs)
      else splitlines_from (cur @ [c]) cs)"

definition splitlines :: "string \<Rightarrow> string list" where
  "splitlines s = splitlines_from [] s"

text \<open>\<^verbatim>\<open>s.split(sep)\<close> for a separator of one character: never an empty list.\<close>

fun split_from :: "char \<Rightarrow> string \<Rightarrow> string \<Rightarrow> string list" where
  "split_from sep cur [] = [cur]"
| "split_from sep cur (c # cs) =
     (if c = sep then cur # split_from sep [] cs
      else split_from sep (cur @ [c]) cs)"

definition split :: "string \<Rightarrow> char \<Rightarrow> string list" where
  "split s sep = split_from sep [] s"

subsection \<open>Class constants of \<^verbatim>\<open>CLIHandler\<close>\<close>

definition FILENAME_SETTINGS :: string where
  "FILENAME_SETTINGS = ''settings.py''"

definition FILENAME_RUNLIST :: string where
  "FILENAME_RUNLIST = ''RUNLIST''"

definition FILENAME_TESTSUITE :: string where
  "FILENAME_TESTSUITE = ''example_testsuite.py''"

definition INIT_FILENAME :: string where
  "INIT_FILENAME = ''__init__.py''"

definition RUNLIST_COMMENT_PREFIX :: string where
  "RUNLIST_COMMENT_PREFIX = ''#''"

definition PLACEHOLDER_NAME :: string where
  "PLACEHOLDER_NAME = ''<Example>''"

definition CMD_STARTPROJECT :: string where
  "CMD_STARTPROJECT = ''startproject''"

definition CMD_ADDTESTGROUP :: string where
  "CMD_ADDTESTGROUP = ''addtestgroup''"

definition CMD_RUN :: string where
  "CMD_RUN = ''run''"

definition CMDS_WITH_NAME_ARG :: "string list" where
  "CMDS_WITH_NAME_ARG = [CMD_STARTPROJECT, CMD_ADDTESTGROUP]"

subsection \<open>The regular expression of valid names\<close>

text \<open>
  \<^verbatim>\<open>RE_VALID_NAME = r'^[A-Za-z0-9_]+$'\<close>. The pattern is a sequence of three items;
  the matcher below is Python's \<^verbatim>\<open>re.match\<close> for such sequences, with Python's
  reading of each item: \<^verbatim>\<open>^\<close> matches at the start of the string, a character class
  followed by \<^verbatim>\<open>+\<close> matches one or more characters of the class (with backtracking),
  and \<^verbatim>\<open>$\<close>, with no flags, matches at the end of the string and also just before a
  newline that is the last character of the string.
\<close>

datatype re_item = Caret | Dollar | Plus_class "(char \<times> char) list"

definition in_class :: "(char \<times> char) list \<Rightarrow> char \<Rightarrow> bool" where
  "in_class ranges c =
     list_ex (\<lambda>(lo, hi). (of_char lo :: nat) \<le> of_char c \<and> (of_char c :: nat) \<le> of_char hi) ranges"

fun re_match_here :: "bool \<Rightarrow> string \<Rightarrow> re_item list \<Rightarrow> bool" where
  "re_match_here at_start s [] = True"
| "re_match_here at_start s (Caret # r) = (at_start \<and> re_match_here at_start s r)"
| "re_match_here at_start s (Dollar # r) =
     ((s = [] \<or> s = [LF]) \<and> re_match_here at_start s r)"
| "re_match_here at_start [] (Plus_class cl # r) = False"
| "re_match_here at_start (c # cs) (Plus_class cl # r) =
     (in_class cl c \<and>
      (re_match_here False cs (Plus_class cl # r) \<or> re_match_here False cs r))"

definition re_match :: "re_item list \<Rightarrow> string \<Rightarrow> bool" where
  "re_match pattern s = re_match_here True s pattern"

definition RE_VALID_NAME :: "re_item list" where
  "RE_VALID_NAME =
     [Caret,
      Plus_class [(CHR ''A'', CHR ''Z''), (CHR ''a'', CHR ''z''), (CHR ''0'', CHR ''9''),
                  (CHR ''_'', CHR ''_'')],
      Dollar]"

text \<open>\<^verbatim>\<open>_is_valid_name(s)\<close>: \<^verbatim>\<open>re.match(CLIHandler.RE_VALID_NAME, s) is not None\<close>.\<close>

definition is_valid_name :: "string \<Rightarrow> bool" where
  "is_valid_name s = re_match RE_VALID_NAME s"

section \<open>Python values\<close>

text \<open>
  The values that the tests of the repository pass to assertions: \<^verbatim>\<open>None\<close>, booleans,
  integers, floats, byte strings, lists and tuples. A finite float is the rational
  number it denotes (comparison of finite floats, and of a float with an integer, is
  exact in Python); infinities and NaN are outside the model.
\<close>

datatype pyval =
    PNone
  | PBool bool
  | PInt int
  | PFloat rat
  | PStr string
  | PList "pyval list"
  | PTuple "pyval list"

text \<open>Booleans, integers and floats compare by their numeric value.\<close>

fun num_value :: "pyval \<Rightarrow> rat option" where
  "num_value (PBool b) = Some (if b then 1 else 0)"
| "num_value (PInt i) = Some (of_int i)"
| "num_value (PFloat r) = Some r"
| "num_value _ = None"

text \<open>
  Python 2 orders values of different types: \<^verbatim>\<open>None\<close> is smaller than everything,
  numbers are smaller than the other types, and the other types are ordered by their
  type names (\<^verbatim>\<open>list\<close>, \<^verbatim>\<open>str\<close>, \<^verbatim>\<open>tuple\<close>).
\<close>

fun type_rank :: "pyval \<Rightarrow> nat" where
  "type_rank PNone = 0"
| "type_rank (PBool b) = 1"
| "type_rank (PInt i) = 1"
| "type_rank (PFloat r) = 1"
| "type_rank (PList xs) = 2"
| "type_rank (PStr s) = 3"
| "type_rank (PTuple xs) = 4"

definition cmp_of :: "'a::linorder \<Rightarrow> 'a \<Rightarrow> int" where
  "cmp_of a b = (if a < b then - 1 else if a = b then 0 else 1)"

fun cmp_str :: "string \<Rightarrow> string \<Rightarrow> int" where
  "cmp_str [] [] = 0"
| "cmp_str [] (d # ds) = - 1"
| "cmp_str (c # cs) [] = 1"
| "cmp_str (c # cs) (d # ds) =
     (if c = d then cmp_str cs ds else cmp_of (of_char c :: nat) (of_char d))"

text \<open>\<^verbatim>\<open>cmp(a, b)\<close>: negative, zero or positive.\<close>

fun py_cmp :: "pyval \<Rightarrow> pyval \<Rightarrow> int"
  and cmp_seq :: "pyval list \<Rightarrow> pyval list \<Rightarrow> int" where
  "py_cmp a b =
     (case (a, b) of
        (PList xs, PList ys) \<Rightarrow> cmp_seq xs ys
      | (PTuple xs, PTuple ys) \<Rightarrow> cmp_seq xs ys
      | (PStr s, PStr t) \<Rightarrow> cmp_str s t
      | _ \<Rightarrow>
          (case (num_value a, num_value b) of
             (Some x, Some y) \<Rightarrow> cmp_of x y
           | _ \<Rightarrow> cmp_of (type_rank a) (type_rank b)))"
| "cmp_seq [] [] = 0"
| "cmp_seq [] (y # ys) = - 1"
| "cmp_seq (x # xs) [] = 1"
| "cmp_seq (x # xs) (y # ys) =
     (let c = py_cmp x y in if c = 0 then cmp_seq xs ys else c)"

definition py_eq :: "pyval \<Rightarrow> pyval \<Rightarrow> bool" where
  "py_eq a b = (py_cmp a b = 0)"

fun is_prefix :: "string \<Rightarrow> string \<Rightarrow> bool" where
  "is_prefix [] s = True"
| "is_prefix (c # cs) [] = False"
| "is_prefix (c # cs) (d # ds) = (c = d \<and> is_prefix cs ds)"

fun is_substring :: "string \<Rightarrow> string \<Rightarrow> bool" where
  "is_substring p [] = (p = [])"
| "is_substring p (d # ds) = (is_prefix p (d # ds) \<or> is_substring p ds)"

text \<open>
  \<^verbatim>\<open>v in collection\<close>: membership by equality in a list or tuple, substring search in a
  string; \<open>None\<close> is Python's TypeError (the right operand is not a container, or the
  left operand of a search in a string is not a string).
\<close>

fun py_contains :: "pyval \<Rightarrow> pyval \<Rightarrow> bool option" where
  "py_contains v (PList xs) = Some (list_ex (py_eq v) xs)"
| "py_contains v (PTuple xs) = Some (list_ex (py_eq v) xs)"
| "py_contains (PStr p) (PStr s) = Some (is_substring p s)"
| "py_contains v c = None"

section \<open>The assertion engine\<close>

text \<open>
  Modelled from the spec: the assertion engine (module \<^verbatim>\<open>testvibe.asserts\<close> and the
  assertion methods of \<^verbatim>\<open>testvibe.Testsuite\<close>) is not among the sources; only its
  tests in \<^verbatim>\<open>tests/test_asserts.py\<close> are. The operations and their failure kinds are
  the table of section 4.1 of the specification. The kind of a failure also names the
  operation that raises it.
\<close>

datatype kind =
    Equal | NotEqual | IsNull | IsNotNull | IsNotTrue | IsNotFalse | In | NotIn
  | GreaterThan | GreaterThanOrEqual | LesserThan | LesserThanOrEqual | IsANumber

datatype signal =
    AssertionException kind "pyval list"
  | TypeError
  | AttributeError string
  | ImportError string
  | IOError string
  | OSError string
  | SystemExit int

text \<open>
  Modelled from the spec: the predicate of each operation (section 4.1), on the list of
  the call's arguments. \<open>None\<close> is a call that raises TypeError before any assertion
  is counted: the wrong number of arguments, or operands that \<^verbatim>\<open>in\<close> does not accept.
\<close>

fun holds :: "kind \<Rightarrow> pyval list \<Rightarrow> bool option" where
  "holds Equal [a, b] = Some (py_eq a b)"
| "holds NotEqual [a, b] = Some (\<not> py_eq a b)"
| "holds IsNull [v] = Some (v = PNone)"
| "holds IsNotNull [v] = Some (v \<noteq> PNone)"
| "holds IsNotTrue [v] = Some (v = PBool True)"
| "holds IsNotFalse [v] = Some (v = PBool False)"
| "holds In [v, c] = py_contains v c"
| "holds NotIn [v, c] = map_option Not (py_contains v c)"
| "holds GreaterThan [a, b] = Some (py_cmp a b > 0)"
| "holds GreaterThanOrEqual [a, b] = Some (py_cmp a b \<ge> 0)"
| "holds LesserThan [a, b] = Some (py_cmp a b < 0)"
| "holds LesserThanOrEqual [a, b] = Some (py_cmp a b \<le> 0)"
| "holds IsANumber [v] = Some (case v of PInt i \<Rightarrow> True | PFloat r \<Rightarrow> True | _ \<Rightarrow> False)"
| "holds k args = None"

text \<open>
  Modelled from the spec: the counters of one engine. Section 8 of the specification
  gives the exact mapping that \<^verbatim>\<open>test_assert_counters\<close> asserts (from \<open>(0,0)\<close>, three
  successes give \<open>(3,3)\<close> and a failure then gives \<open>(3,4)\<close>): a success "increments both
  pass_count and the implicit attempted-count", a failure the attempted-count alone.
\<close>

record asserts =
  pass_count :: nat
  attempted_count :: nat

definition fresh_asserts :: asserts where
  "fresh_asserts = \<lparr>pass_count = 0, attempted_count = 0\<rparr>"

definition get_assert_counters :: "asserts \<Rightarrow> nat \<times> nat" where
  "get_assert_counters s = (pass_count s, attempted_count s)"

definition reset_assert_counter :: "asserts \<Rightarrow> asserts" where
  "reset_assert_counter s = s\<lparr>pass_count := 0, attempted_count := 0\<rparr>"

text \<open>
  Modelled from the spec: one assertion call. The predicate is evaluated first, then
  the counters are updated, then the call returns or raises the failure of its kind.
\<close>

definition assert_call :: "kind \<Rightarrow> pyval list \<Rightarrow> asserts \<Rightarrow> (signal + unit) \<times> asserts" where
  "assert_call k args s =
     (case holds k args of
        None \<Rightarrow> (Inl TypeError, s)
      | Some True \<Rightarrow>
          (Inr (), s\<lparr>pass_count := pass_count s + 1, attempted_count := attempted_count s + 1\<rparr>)
      | Some False \<Rightarrow>
          (Inl (AssertionException k args), s\<lparr>attempted_count := attempted_count s + 1\<rparr>))"

text \<open>
  Modelled from the spec: the names under which a suite reaches the operations. Each
  operation has its canonical name and the aliases that \<^verbatim>\<open>BasicTestSuite\<close> of
  \<^verbatim>\<open>tests/test_asserts.py\<close> calls; every name is bound to one operation.
\<close>

definition assert_methods :: "(string \<times> kind) list" where
  "assert_methods =
     [(''assert_equal'', Equal), (''assert_eq'', Equal), (''a_eq'', Equal),
      (''assert_not_equal'', NotEqual), (''assert_neq'', NotEqual), (''a_neq'', NotEqual),
      (''assert_null'', IsNull), (''a_null'', IsNull),
      (''assert_not_null'', IsNotNull), (''a_not_null'', IsNotNull),
      (''assert_true'', IsNotTrue), (''a_true'', IsNotTrue),
      (''assert_false'', IsNotFalse), (''a_false'', IsNotFalse),
      (''assert_in'', In), (''a_in'', In),
      (''assert_not_in'', NotIn), (''a_not_in'', NotIn),
      (''assert_greater_than'', GreaterThan), (''assert_gt'', GreaterThan),
      (''a_gt'', GreaterThan),
      (''assert_greater_than_or_equal'', GreaterThanOrEqual),
      (''assert_gte'', GreaterThanOrEqual), (''a_gte'', GreaterThanOrEqual),
      (''assert_lesser_than'', LesserThan), (''assert_lt'', LesserThan),
      (''a_lt'', LesserThan),
      (''assert_lesser_than_or_equal'', LesserThanOrEqual),
      (''assert_lte'', LesserThanOrEqual), (''a_lte'', LesserThanOrEqual),
      (''assert_is_a_number'', IsANumber), (''assert_is_n'', IsANumber),
      (''a_is_n'', IsANumber)]"

text \<open>
  Modelled from the spec: \<^verbatim>\<open>self.<name>(*args)\<close> on a suite instance, for the methods
  of the base class \<^verbatim>\<open>testvibe.Testsuite\<close>, which is not among the sources, that a test
  case calls: an assertion under any of its names, \<^verbatim>\<open>get_assert_counters\<close> (its
  value is dropped by a statement) and \<^verbatim>\<open>reset_assert_counter\<close>. Any other name is an
  AttributeError.
\<close>

definition call_method :: "string \<Rightarrow> pyval list \<Rightarrow> asserts \<Rightarrow> (signal + unit) \<times> asserts" where
  "call_method name args s =
     (case map_of assert_methods name of
        Some k \<Rightarrow> assert_call k args s
      | None \<Rightarrow>
          if name = ''get_assert_counters'' then
            (if args = [] then (Inr (), s) else (Inl TypeError, s))
          else if name = ''reset_assert_counter'' then
            (if args = [] then (Inr (), reset_assert_counter s) else (Inl TypeError, s))
          else (Inl (AttributeError name), s))"

section \<open>The suite of \<^verbatim>\<open>tests/test_asserts.py\<close>\<close>

text \<open>
  The methods of \<^verbatim>\<open>BasicTestSuite\<close>: each passes its arguments to one method of the
  base class.
\<close>

definition test_equal :: "pyval \<Rightarrow> pyval \<Rightarrow> asserts \<Rightarrow> (signal + unit) \<times> asserts" where
  "test_equal v1 v2 = call_method ''assert_equal'' [v1, v2]"

definition test_equal_alias_1 :: "pyval \<Rightarrow> pyval \<Rightarrow> asserts \<Rightarrow> (signal + unit) \<times> asserts" where
  "test_equal_alias_1 v1 v2 = call_method ''assert_eq'' [v1, v2]"

definition test_equal_alias_2 :: "pyval \<Rightarrow> pyval \<Rightarrow> asserts \<Rightarrow> (signal + unit) \<times> asserts" where
  "test_equal_alias_2 v1 v2 = call_method ''a_eq'' [v1, v2]"

definition test_not_equal :: "pyval \<Rightarrow> pyval \<Rightarrow> asserts \<Rightarrow> (signal + unit) \<times> asserts" where
  "test_not_equal v1 v2 = call_method ''assert_not_equal'' [v1, v2]"

definition test_not_equal_alias_1 :: "pyval \<Rightarrow> pyval \<Rightarrow> asserts \<Rightarrow> (signal + unit) \<times> asserts" where
  "test_not_equal_alias_1 v1 v2 = call_method ''assert_neq'' [v1, v2]"

definition test_not_equal_alias_2 :: "pyval \<Rightarrow> pyval \<Rightarrow> asserts \<Rightarrow> (signal + unit) \<times> asserts" where
  "test_not_equal_alias_2 v1 v2 = call_method ''a_neq'' [v1, v2]"

definition test_null :: "pyval \<Rightarrow> asserts \<Rightarrow> (signal + unit) \<times> asserts" where
  "test_null v = call_method ''assert_null'' [v]"

definition test_null_alias_1 :: "pyval \<Rightarrow> asserts \<Rightarrow> (signal + unit) \<times> asserts" where
  "test_null_alias_1 v = call_method ''a_null'' [v]"

definition test_not_null :: "pyval \<Rightarrow> asserts \<Rightarrow> (signal + unit) \<times> asserts" where
  "test_not_null v = call_method ''assert_not_null'' [v]"

definition test_not_null_alias_1 :: "pyval \<Rightarrow> asserts \<Rightarrow> (signal + unit) \<times> asserts" where
  "test_not_null_alias_1 v = call_method ''a_not_null'' [v]"

definition test_true :: "pyval \<Rightarrow> asserts \<Rightarrow> (signal + unit) \<times> asserts" where
  "test_true v = call_method ''assert_true'' [v]"

definition test_true_alias_1 :: "pyval \<Rightarrow> asserts \<Rightarrow> (signal + unit) \<times> asserts" where
  "test_true_alias_1 v = call_method ''a_true'' [v]"

definition test_false :: "pyval \<Rightarrow> asserts \<Rightarrow> (signal + unit) \<times> asserts" where
  "test_false v = call_method ''assert_false'' [v]"

definition test_false_alias_1 :: "pyval \<Rightarrow> asserts \<Rightarrow> (signal + unit) \<times> asserts" where
  "test_false_alias_1 v = call_method ''a_false'' [v]"

definition test_in :: "pyval \<Rightarrow> pyval \<Rightarrow> asserts \<Rightarrow> (signal + unit) \<times> asserts" where
  "test_in v l = call_method ''assert_in'' [v, l]"

definition test_in_alias_1 :: "pyval \<Rightarrow> pyval \<Rightarrow> asserts \<Rightarrow> (signal + unit) \<times> asserts" where
  "test_in_alias_1 v l = call_method ''a_in'' [v, l]"

definition test_not_in :: "pyval \<Rightarrow> pyval \<Rightarrow> asserts \<Rightarrow> (signal + unit) \<times> asserts" where
  "test_not_in v l = call_method ''assert_not_in'' [v, l]"

definition test_not_in_alias_1 :: "pyval \<Rightarrow> pyval \<Rightarrow> asserts \<Rightarrow> (signal + unit) \<times> asserts" where
  "test_not_in_alias_1 v l = call_method ''a_not_in'' [v, l]"

definition test_greater_than :: "pyval \<Rightarrow> pyval \<Rightarrow> asserts \<Rightarrow> (signal + unit) \<times> asserts" where
  "test_greater_than v1 v2 = call_method ''assert_greater_than'' [v1, v2]"

definition test_greater_than_alias_1 :: "pyval \<Rightarrow> pyval \<Rightarrow> asserts \<Rightarrow> (signal + unit) \<times> asserts" where
  "test_greater_than_alias_1 v1 v2 = call_method ''assert_gt'' [v1, v2]"

definition test_greater_than_alias_2 :: "pyval \<Rightarrow> pyval \<Rightarrow> asserts \<Rightarrow> (signal + unit) \<times> asserts" where
  "test_greater_than_alias_2 v1 v2 = call_method ''a_gt'' [v1, v2]"

definition test_greater_than_or_equal :: "pyval \<Rightarrow> pyval \<Rightarrow> asserts \<Rightarrow> (signal + unit) \<times> asserts" where
  "test_greater_than_or_equal v1 v2 = call_method ''assert_greater_than_or_equal'' [v1, v2]"

definition test_greater_than_or_equal_alias_1 :: "pyval \<Rightarrow> pyval \<Rightarrow> asserts \<Rightarrow> (signal + unit) \<times> asserts" where
  "test_greater_than_or_equal_alias_1 v1 v2 = call_method ''assert_gte'' [v1, v2]"

definition test_greater_than_or_equal_alias_2 :: "pyval \<Rightarrow> pyval \<Rightarrow> asserts \<Rightarrow> (signal + unit) \<times> asserts" where
  "test_greater_than_or_equal_alias_2 v1 v2 = call_method ''a_gte'' [v1, v2]"

definition test_lesser_than :: "pyval \<Rightarrow> pyval \<Rightarrow> asserts \<Rightarrow> (signal + unit) \<times> asserts" where
  "test_lesser_than v1 v2 = call_method ''assert_lesser_than'' [v1, v2]"

definition test_lesser_than_alias_1 :: "pyval \<Rightarrow> pyval \<Rightarrow> asserts \<Rightarrow> (signal + unit) \<times> asserts" where
  "test_lesser_than_alias_1 v1 v2 = call_method ''assert_lt'' [v1, v2]"

definition test_lesser_than_alias_2 :: "pyval \<Rightarrow> pyval \<Rightarrow> asserts \<Rightarrow> (signal + unit) \<times> asserts" where
  "test_lesser_than_alias_2 v1 v2 = call_method ''a_lt'' [v1, v2]"

definition test_lesser_than_or_equal :: "pyval \<Rightarrow> pyval \<Rightarrow> asserts \<Rightarrow> (signal + unit) \<times> asserts" where
  "test_lesser_than_or_equal v1 v2 = call_method ''assert_lesser_than_or_equal'' [v1, v2]"

definition test_lesser_than_or_equal_alias_1 :: "pyval \<Rightarrow> pyval \<Rightarrow> asserts \<Rightarrow> (signal + unit) \<times> asserts" where
  "test_lesser_than_or_equal_alias_1 v1 v2 = call_method ''assert_lte'' [v1, v2]"

definition test_lesser_than_or_equal_alias_2 :: "pyval \<Rightarrow> pyval \<Rightarrow> asserts \<Rightarrow> (signal + unit) \<times> asserts" where
  "test_lesser_than_or_equal_alias_2 v1 v2 = call_method ''a_lte'' [v1, v2]"

definition test_is_a_number :: "pyval \<Rightarrow> asserts \<Rightarrow> (signal + unit) \<times> asserts" where
  "test_is_a_number v = call_method ''assert_is_a_number'' [v]"

definition test_is_a_number_alias1 :: "pyval \<Rightarrow> asserts \<Rightarrow> (signal + unit) \<times> asserts" where
  "test_is_a_number_alias1 v = call_method ''assert_is_n'' [v]"

definition test_is_a_number_alias2 :: "pyval \<Rightarrow> asserts \<Rightarrow> (signal + unit) \<times> asserts" where
  "test_is_a_number_alias2 v = call_method ''a_is_n'' [v]"

text \<open>
  \<^verbatim>\<open>TestAsserts.test_assert_counters\<close>, on the suite that \<^verbatim>\<open>setUp\<close> has built: the value
  is whether its four \<^verbatim>\<open>assert\<close> statements hold and no call raises past the test.
  The counters come from \<^verbatim>\<open>get_assert_counters\<close>; the failure of \<^verbatim>\<open>test_in\<close> is caught
  by the \<^verbatim>\<open>except\<close> clause when it is an AssertionExceptionIn.
\<close>

definition test_assert_counters :: "asserts \<Rightarrow> bool" where
  "test_assert_counters t0 =
     (get_assert_counters t0 = (0, 0) \<and>
      (case test_equal (PStr ''A'') (PStr ''A'') t0 of
         (Inl e, t1) \<Rightarrow> False
       | (Inr u, t1) \<Rightarrow>
           get_assert_counters t1 = (1, 1) \<and>
           (case test_null PNone t1 of
              (Inl e, t2) \<Rightarrow> False
            | (Inr u, t2) \<Rightarrow>
                (case test_lesser_than_or_equal (PInt 7) (PInt 9) t2 of
                   (Inl e, t3) \<Rightarrow> False
                 | (Inr u, t3) \<Rightarrow>
                     get_assert_counters t3 = (3, 3) \<and>
                     (case test_in (PInt 3) (PList [PInt 1, PInt 2, PInt 4]) t3 of
                        (Inl (AssertionException k args), t4) \<Rightarrow>
                          k = In \<and> get_assert_counters t4 = (3, 4)
                      | (Inl e, t4) \<Rightarrow> False
                      | (Inr u, t4) \<Rightarrow> get_assert_counters t4 = (3, 4))))))"

text \<open>\<^verbatim>\<open>TestAsserts.test_assert_counters_reset\<close>.\<close>

definition test_assert_counters_reset :: "asserts \<Rightarrow> bool" where
  "test_assert_counters_reset t0 =
     (get_assert_counters t0 = (0, 0) \<and>
      (case test_equal (PStr ''A'') (PStr ''A'') t0 of
         (Inl e, t1) \<Rightarrow> False
       | (Inr u, t1) \<Rightarrow> get_assert_counters (reset_assert_counter t1) = (0, 0)))"

section \<open>Classes, modules and reflection\<close>

text \<open>
  A statement of a test case: \<^verbatim>\<open>self.<name>(<args>)\<close>, a call of a method of the suite
  with literal arguments. A test case is a function whose body is a sequence of such
  statements.
\<close>

datatype stmt = Call_self string "pyval list"

text \<open>
  The objects that a module or a class binds to a name: a function (its name and
  body), a value that is neither callable nor a type, an imported module, or a class.
  A class has its name, the name of the module that declares it (\<^verbatim>\<open>__module__\<close>), its
  bases, and its own \<^verbatim>\<open>__dict__\<close>. All classes are new-style: instances of \<^verbatim>\<open>type\<close>.
\<close>

datatype pyobj =
    Function string "stmt list"
  | Data pyval
  | Module string
  | Type pyclass
and pyclass =
    Class (cname: string) (cmodule: string) (bases: "pyclass list")
      (cdict: "(string \<times> pyobj) list")

text \<open>
  \<^verbatim>\<open>dir(cl)\<close>: the names of the class's own dictionary and of its bases, recursively,
  each once. Python sorts the list; the callers only put the names into sets. The
  attributes that every class has from \<^verbatim>\<open>object\<close> all start with an underscore.
\<close>

fun dir_class :: "pyclass \<Rightarrow> string list" where
  "dir_class (Class n m bs d) = remdups (map fst d @ concat (map dir_class bs))"

text \<open>
  \<^verbatim>\<open>getattr(cl, name)\<close>: the class's own dictionary first, then the bases from left to
  right; \<open>None\<close> is AttributeError. Discovery asks only for names of the class's own
  dictionary, so the order among the bases plays no role in it.
\<close>

fun first_some :: "'a option list \<Rightarrow> 'a option" where
  "first_some [] = None"
| "first_some (None # xs) = first_some xs"
| "first_some (Some v # xs) = Some v"

fun getattr_class :: "pyclass \<Rightarrow> string \<Rightarrow> pyobj option" where
  "getattr_class (Class n m bs d) name =
     (case map_of d name of
        Some v \<Rightarrow> Some v
      | None \<Rightarrow> first_some (map (\<lambda>b. getattr_class b name) bs))"

text \<open>\<^verbatim>\<open>callable(o)\<close>: functions and classes can be called.\<close>

fun callable :: "pyobj \<Rightarrow> bool" where
  "callable (Function f body) = True"
| "callable (Type c) = True"
| "callable (Data v) = False"
| "callable (Module m) = False"

text \<open>\<^verbatim>\<open>issubclass(c, base)\<close>: the class itself, or a class with a base that is one.\<close>

fun issubclass :: "pyclass \<Rightarrow> pyclass \<Rightarrow> bool" where
  "issubclass (Class n m bs d) base =
     (Class n m bs d = base \<or> list_ex (\<lambda>b. issubclass b base) bs)"

text \<open>
  A Python \<^verbatim>\<open>set\<close> is a list without repetitions, in the order of insertion;
  \<^verbatim>\<open>s.add(x)\<close> is \<open>set_add\<close>. The order in which a loop visits a set is not the order
  of insertion: it is given by the environment below.
\<close>

definition set_add :: "'a list \<Rightarrow> 'a \<Rightarrow> 'a list" where
  "set_add s x = (if x \<in> set s then s else s @ [x])"

text \<open>
  What the handler takes from the package \<^verbatim>\<open>testvibe\<close>, which is not among the sources:
  the class \<^verbatim>\<open>testvibe.Testsuite\<close> and its constant \<^verbatim>\<open>RESERVED_NAMES\<close>; and the
  order in which Python visits the elements of each set the handler loops over.
\<close>

record env =
  Testsuite :: pyclass
  RESERVED_NAMES :: "string list"
  order_tcases :: "pyobj list \<Rightarrow> pyobj list"
  order_classes :: "pyclass list \<Rightarrow> pyclass list"
  order_strings :: "string list \<Rightarrow> string list"

text \<open>
  \<^verbatim>\<open>_get_all_tcases(cl)\<close>. One step of the loop over \<^verbatim>\<open>dir(cl)\<close>: the four
  \<^verbatim>\<open>continue\<close> tests in the order of the source. \<^verbatim>\<open>getattr\<close> is reached only for a name
  of the class's own dictionary, where it does not raise.
\<close>

definition tcases_step :: "string list \<Rightarrow> pyclass \<Rightarrow> pyobj list \<Rightarrow> string \<Rightarrow> pyobj list" where
  "tcases_step reserved_names cl tcases name =
     (if startswith name ''_'' then tcases
      else if name \<in> set reserved_names then tcases
      else if name \<notin> set (map fst (cdict cl)) then tcases
      else
        (case getattr_class cl name of
           None \<Rightarrow> tcases
         | Some v \<Rightarrow> if \<not> callable v then tcases else set_add tcases v))"

definition get_all_tcases :: "env \<Rightarrow> pyclass \<Rightarrow> pyobj list" where
  "get_all_tcases e cl = foldl (tcases_step (RESERVED_NAMES e) cl) [] (dir_class cl)"

text \<open>
  A module is its namespace; \<^verbatim>\<open>dir(module)\<close> is the list of its names and
  \<^verbatim>\<open>getattr(module, name)\<close> the object bound to a name.
\<close>

type_synonym pymodule = "(string \<times> pyobj) list"

definition dir_module :: "pymodule \<Rightarrow> string list" where
  "dir_module mdl = remdups (map fst mdl)"

text \<open>
  \<^verbatim>\<open>_get_all_tsuite_classes(module)\<close>. One step of the loop over \<^verbatim>\<open>dir(module)\<close>: the
  object bound to the name is an instance of \<^verbatim>\<open>type\<close> exactly when it is a class.
\<close>

definition tsuites_step :: "env \<Rightarrow> pymodule \<Rightarrow> pyclass list \<Rightarrow> string \<Rightarrow> pyclass list" where
  "tsuites_step e mdl tsuites name =
     (case map_of mdl name of
        Some (Type co) \<Rightarrow> if issubclass co (Testsuite e) then set_add tsuites co else tsuites
      | _ \<Rightarrow> tsuites)"

definition get_all_tsuite_classes :: "env \<Rightarrow> pymodule \<Rightarrow> pyclass list" where
  "get_all_tsuite_classes e mdl = foldl (tsuites_step e mdl) [] (dir_module mdl)"

section \<open>The world of the handler\<close>

text \<open>
  The file system below the current working directory is a tree; a directory is an
  association list from names to nodes. Paths are relative to the working directory
  and are split at \<^verbatim>\<open>/\<close>; empty components and \<^verbatim>\<open>.\<close> are dropped.
\<close>

datatype node = File string | Dir "(string \<times> node) list"

text \<open>
  The world: the name of the working directory (\<^verbatim>\<open>os.getcwd()\<close>), its entries, the
  files of the package's \<^verbatim>\<open>default_install/\<close> directory by file name, the module
  system (\<^verbatim>\<open>importlib.import_module(name, package)\<close>, \<open>None\<close> for a module that cannot
  be imported), what has been written to \<^verbatim>\<open>sys.stderr\<close>, the suite instances built so
  far, each with its class and its engine, and the calls of \<^verbatim>\<open>Testsuite.test\<close> made so
  far (receiver, test case, argument). The calls of the logger and the progress bar
  of \<^verbatim>\<open>tqdm\<close> are left out.
\<close>

record world =
  cwd :: string
  entries :: "(string \<times> node) list"
  default_install :: "(string \<times> string) list"
  importer :: "string \<Rightarrow> string \<Rightarrow> pymodule option"
  stderr :: "string list"
  instances :: "(pyclass \<times> asserts) list"
  invocations :: "(nat \<times> pyobj \<times> nat) list"

definition path_parts :: "string \<Rightarrow> string list" where
  "path_parts p = filter (\<lambda>c. c \<noteq> [] \<and> c \<noteq> ''.'') (split p (CHR ''/''))"

fun lookup_node :: "(string \<times> node) list \<Rightarrow> string list \<Rightarrow> node option" where
  "lookup_node es [] = Some (Dir es)"
| "lookup_node es (c # cs) =
     (case map_of es c of
        None \<Rightarrow> None
      | Some (File txt) \<Rightarrow> if cs = [] then Some (File txt) else None
      | Some (Dir sub) \<Rightarrow> lookup_node sub cs)"

text \<open>\<^verbatim>\<open>os.path.exists(p)\<close>, \<^verbatim>\<open>os.path.isdir(p)\<close>, \<^verbatim>\<open>os.listdir(p)\<close>\<close>

definition path_exists :: "world \<Rightarrow> string \<Rightarrow> bool" where
  "path_exists w p = (lookup_node (entries w) (path_parts p) \<noteq> None)"

definition isdir :: "world \<Rightarrow> string \<Rightarrow> bool" where
  "isdir w p =
     (case lookup_node (entries w) (path_parts p) of Some (Dir sub) \<Rightarrow> True | _ \<Rightarrow> False)"

definition listdir :: "world \<Rightarrow> string \<Rightarrow> signal + string list" where
  "listdir w p =
     (case lookup_node (entries w) (path_parts p) of
        Some (Dir sub) \<Rightarrow> Inr (map fst sub)
      | _ \<Rightarrow> Inl (OSError p))"

text \<open>\<^verbatim>\<open>with open(p, 'r') as f: content = f.read()\<close>\<close>

definition read_file :: "world \<Rightarrow> string \<Rightarrow> signal + string" where
  "read_file w p =
     (case lookup_node (entries w) (path_parts p) of
        Some (File txt) \<Rightarrow> Inr txt
      | _ \<Rightarrow> Inl (IOError p))"

text \<open>
  \<^verbatim>\<open>with open(p, 'w') as f: f.write(content)\<close>: the file is created or replaced in a
  directory that exists; \<open>None\<close> is IOError.
\<close>

fun write_node :: "(string \<times> node) list \<Rightarrow> string list \<Rightarrow> string \<Rightarrow> (string \<times> node) list option" where
  "write_node es [] txt = None"
| "write_node es [c] txt =
     (case map_of es c of
        Some (Dir sub) \<Rightarrow> None
      | _ \<Rightarrow> Some (AList.update c (File txt) es))"
| "write_node es (c # d # cs) txt =
     (case map_of es c of
        Some (Dir sub) \<Rightarrow>
          (case write_node sub (d # cs) txt of
             None \<Rightarrow> None
           | Some sub' \<Rightarrow> Some (AList.update c (Dir sub') es))
      | _ \<Rightarrow> None)"

definition write_file :: "string \<Rightarrow> string \<Rightarrow> world \<Rightarrow> (signal + unit) \<times> world" where
  "write_file p txt w =
     (case write_node (entries w) (path_parts p) txt of
        None \<Rightarrow> (Inl (IOError p), w)
      | Some es \<Rightarrow> (Inr (), w\<lparr>entries := es\<rparr>))"

text \<open>
  \<^verbatim>\<open>os.makedirs(p)\<close>: the directory and the missing directories above it are created;
  \<open>None\<close> is OSError (the path exists, or a file is in the way).
\<close>

fun make_nodes :: "(string \<times> node) list \<Rightarrow> string list \<Rightarrow> (string \<times> node) list option" where
  "make_nodes es [] = None"
| "make_nodes es [c] =
     (case map_of es c of
        None \<Rightarrow> Some (AList.update c (Dir []) es)
      | Some n \<Rightarrow> None)"
| "make_nodes es (c # d # cs) =
     (case map_of es c of
        None \<Rightarrow>
          (case make_nodes [] (d # cs) of
             None \<Rightarrow> None
           | Some sub' \<Rightarrow> Some (AList.update c (Dir sub') es))
      | Some (Dir sub) \<Rightarrow>
          (case make_nodes sub (d # cs) of
             None \<Rightarrow> None
           | Some sub' \<Rightarrow> Some (AList.update c (Dir sub') es))
      | Some (File txt) \<Rightarrow> None)"

definition makedirs :: "string \<Rightarrow> world \<Rightarrow> (signal + unit) \<times> world" where
  "makedirs p w =
     (case make_nodes (entries w) (path_parts p) of
        None \<Rightarrow> (Inl (OSError p), w)
      | Some es \<Rightarrow> (Inr (), w\<lparr>entries := es\<rparr>))"

text \<open>\<^verbatim>\<open>sys.stderr.write(msg)\<close> and \<^verbatim>\<open>sys.exit(status)\<close>\<close>

definition stderr_write :: "string \<Rightarrow> world \<Rightarrow> world" where
  "stderr_write msg w = w\<lparr>stderr := stderr w @ [msg]\<rparr>"

definition sys_exit :: "int \<Rightarrow> world \<Rightarrow> (signal + unit) \<times> world" where
  "sys_exit status w = (Inl (SystemExit status), w)"

text \<open>
  \<^verbatim>\<open>for x in xs: body(x)\<close>, where a signal raised by the body ends the loop and leaves
  it.
\<close>

fun for_each :: "('a \<Rightarrow> world \<Rightarrow> (signal + unit) \<times> world) \<Rightarrow> 'a list \<Rightarrow> world \<Rightarrow> (signal + unit) \<times> world" where
  "for_each body [] w = (Inr (), w)"
| "for_each body (x # xs) w =
     (case body x w of
        (Inl sig, w') \<Rightarrow> (Inl sig, w')
      | (Inr u, w') \<Rightarrow> for_each body xs w')"

section \<open>Run lists\<close>

text \<open>\<^verbatim>\<open>_parse_runlist(path)\<close>: the loop appends each line that is not a comment.\<close>

definition parse_runlist :: "world \<Rightarrow> string \<Rightarrow> signal + string list" where
  "parse_runlist w path =
     (case read_file w path of
        Inl sig \<Rightarrow> Inl sig
      | Inr content \<Rightarrow>
          Inr (foldl (\<lambda>tsuites line.
                  if \<not> startswith line RUNLIST_COMMENT_PREFIX then tsuites @ [line]
                  else tsuites)
                [] (splitlines content)))"

text \<open>\<^verbatim>\<open>_get_all_dirs(path)\<close>: \<^verbatim>\<open>os.path.isdir(f)\<close> is asked of the bare name, as in the source.\<close>

definition get_all_dirs :: "world \<Rightarrow> string \<Rightarrow> signal + string list" where
  "get_all_dirs w path =
     (case listdir w path of
        Inl sig \<Rightarrow> Inl sig
      | Inr fs \<Rightarrow> Inr (foldl (\<lambda>dirs f. if isdir w f then set_add dirs f else dirs) [] fs))"

definition CURRENT_WORKING_DIR :: string where
  "CURRENT_WORKING_DIR = ''.''"

text \<open>\<^verbatim>\<open>_get_runlists()\<close>: the second function is the loop over the directories.\<close>

fun runlists_in :: "world \<Rightarrow> string list \<Rightarrow> string list \<Rightarrow> signal + string list" where
  "runlists_in w [] runlists = Inr runlists"
| "runlists_in w (d # ds) runlists =
     (case listdir w d of
        Inl sig \<Rightarrow> Inl sig
      | Inr fs \<Rightarrow>
          runlists_in w ds
            (foldl (\<lambda>rs f. if f = FILENAME_RUNLIST then set_add rs (d @ ''/'' @ f) else rs)
               runlists fs))"

definition get_runlists :: "env \<Rightarrow> world \<Rightarrow> signal + string list" where
  "get_runlists e w =
     (if path_exists w FILENAME_RUNLIST then Inr (set_add [] FILENAME_RUNLIST)
      else
        (case get_all_dirs w CURRENT_WORKING_DIR of
           Inl sig \<Rightarrow> Inl sig
         | Inr dirs \<Rightarrow> runlists_in w (order_strings e dirs) []))"

section \<open>The dispatcher\<close>

text \<open>A test case's body runs its statements in turn on the engine of the instance.\<close>

fun exec_stmt :: "stmt \<Rightarrow> asserts \<Rightarrow> (signal + unit) \<times> asserts" where
  "exec_stmt (Call_self name args) s = call_method name args s"

fun exec_body :: "stmt list \<Rightarrow> asserts \<Rightarrow> (signal + unit) \<times> asserts" where
  "exec_body [] s = (Inr (), s)"
| "exec_body (st # sts) s =
     (case exec_stmt st s of
        (Inl sig, s') \<Rightarrow> (Inl sig, s')
      | (Inr u, s') \<Rightarrow> exec_body sts s')"

text \<open>
  Calling a test case with the instance as its only argument: a function runs its
  body; a class (the other callable that discovery returns) does not take the
  argument, which is a TypeError.
\<close>

fun call_tcase :: "pyobj \<Rightarrow> asserts \<Rightarrow> (signal + unit) \<times> asserts" where
  "call_tcase (Function f body) s = exec_body body s"
| "call_tcase tc s = (Inl TypeError, s)"

text \<open>
  Modelled from the spec: the constructor of a suite class. \<^verbatim>\<open>testvibe.Testsuite\<close> is
  not among the sources; by section 3 of the specification an instance is created
  with its own engine, the counters at \<open>(0, 0)\<close>. The value is the new instance's
  index.
\<close>

definition instantiate :: "pyclass \<Rightarrow> world \<Rightarrow> nat \<times> world" where
  "instantiate cl w =
     (length (instances w), w\<lparr>instances := instances w @ [(cl, fresh_asserts)]\<rparr>)"

text \<open>
  Modelled from the spec: \<^verbatim>\<open>Testsuite.test(self, tc, inst)\<close>, which is not among the
  sources; by section 4.5 of the specification it invokes the test case on the
  instance it is given and does not catch what the test case raises. The call is
  recorded. An index that names no instance cannot come from the dispatcher.
\<close>

definition testsuite_test :: "nat \<Rightarrow> pyobj \<Rightarrow> nat \<Rightarrow> world \<Rightarrow> (signal + unit) \<times> world" where
  "testsuite_test self tc inst w =
     (let w1 = w\<lparr>invocations := invocations w @ [(self, tc, inst)]\<rparr> in
      if inst < length (instances w1) then
        (case call_tcase tc (snd (instances w1 ! inst)) of
           (r, s') \<Rightarrow>
             (r, w1\<lparr>instances := (instances w1)[inst := (fst (instances w1 ! inst), s')]\<rparr>))
      else (Inl (AttributeError ''self''), w1))"

text \<open>
  \<^verbatim>\<open>_run_tsuites(tgroup, tsuites)\<close>, from the inside out: the loop body for one suite
  class (lines 116 to 122), the loop body for one suite identifier (lines 96 to 122),
  and the loop over the indices of \<^verbatim>\<open>tsuites\<close>.
\<close>

definition run_tsuite_class :: "env \<Rightarrow> pyclass \<Rightarrow> world \<Rightarrow> (signal + unit) \<times> world" where
  "run_tsuite_class e tsuite_class w =
     (let tcs = get_all_tcases e tsuite_class;
          (tsuite_class_i, w1) = instantiate tsuite_class w
      in for_each (\<lambda>tc. testsuite_test tsuite_class_i tc tsuite_class_i) (order_tcases e tcs) w1)"

definition NO_SUBCLASSES_MSG :: string where
  "NO_SUBCLASSES_MSG = ''no subclasses of testvibe.Testsuite found'' @ [LF]"

definition run_tsuite :: "env \<Rightarrow> string \<Rightarrow> string \<Rightarrow> world \<Rightarrow> (signal + unit) \<times> world" where
  "run_tsuite e tgroup tsuite0 w =
     (let tsuite = (if CHR ''/'' \<in> set tsuite0 then last (split tsuite0 (CHR ''/'')) else tsuite0);
          name = ''.'' @ take (length tsuite - 3) tsuite
      in
        (case importer w name tgroup of
           None \<Rightarrow> (Inl (ImportError name), w)
         | Some ts \<Rightarrow>
             (let tsuite_classes = get_all_tsuite_classes e ts in
              if length tsuite_classes = 0 then sys_exit 1 (stderr_write NO_SUBCLASSES_MSG w)
              else for_each (run_tsuite_class e) (order_classes e tsuite_classes) w)))"

definition run_tsuites :: "env \<Rightarrow> string \<Rightarrow> string list \<Rightarrow> world \<Rightarrow> (signal + unit) \<times> world" where
  "run_tsuites e tgroup tsuites w =
     for_each (\<lambda>i. run_tsuite e tgroup (tsuites ! i)) [0..<length tsuites] w"

text \<open>\<^verbatim>\<open>cmd_run()\<close>: the first function is the body of the loop over the run lists.\<close>

definition NO_RUNLISTS_MSG :: string where
  "NO_RUNLISTS_MSG = ''no runlists found...'' @ [LF]"

definition run_runlist :: "env \<Rightarrow> string \<Rightarrow> world \<Rightarrow> (signal + unit) \<times> world" where
  "run_runlist e rl w =
     (if CHR ''/'' \<in> set rl then
        (let tgroup = hd (split rl (CHR ''/'')) in
         case parse_runlist w rl of
           Inl sig \<Rightarrow> (Inl sig, w)
         | Inr tsuites \<Rightarrow> run_tsuites e tgroup tsuites w)
      else
        (let tgroup = last (split (cwd w) (CHR ''/'')) in
         case parse_runlist w rl of
           Inl sig \<Rightarrow> (Inl sig, w)
         | Inr tsuites \<Rightarrow> run_tsuites e tgroup tsuites w))"

definition cmd_run :: "env \<Rightarrow> world \<Rightarrow> (signal + unit) \<times> world" where
  "cmd_run e w =
     (case get_runlists e w of
        Inl sig \<Rightarrow> (Inl sig, w)
      | Inr runlists \<Rightarrow>
          if length runlists = 0 then sys_exit 1 (stderr_write NO_RUNLISTS_MSG w)
          else for_each (run_runlist e) (order_strings e runlists) w)"

section \<open>The scaffolding commands and \<^verbatim>\<open>execute\<close>\<close>

text \<open>
  \<^verbatim>\<open>s.replace(old, new)\<close>: every occurrence of \<open>old\<close>, from the left, without overlap.
  The counter is the number of characters of a replaced occurrence still to skip.
\<close>

fun replace_skip :: "string \<Rightarrow> string \<Rightarrow> nat \<Rightarrow> string \<Rightarrow> string" where
  "replace_skip old new k [] = []"
| "replace_skip old new (Suc k) (c # cs) = replace_skip old new k cs"
| "replace_skip old new 0 (c # cs) =
     (if is_prefix old (c # cs) then new @ replace_skip old new (length old - 1) cs
      else c # replace_skip old new 0 cs)"

definition py_replace :: "string \<Rightarrow> string \<Rightarrow> string \<Rightarrow> string" where
  "py_replace s old new =
     (if old = [] then new @ concat (map (\<lambda>c. c # new) s) else replace_skip old new 0 s)"

text \<open>Sequencing: the second step runs when the first has not raised.\<close>

definition and_then :: "(signal + unit) \<times> world \<Rightarrow> (world \<Rightarrow> (signal + unit) \<times> world) \<Rightarrow> (signal + unit) \<times> world" where
  "and_then r f = (case r of (Inl sig, w) \<Rightarrow> (Inl sig, w) | (Inr u, w) \<Rightarrow> f w)"

definition DEFAULT_INSTALL_DIR :: string where
  "DEFAULT_INSTALL_DIR = ''default_install/''"

text \<open>\<^verbatim>\<open>_add_init_file(path)\<close>\<close>

definition add_init_file :: "string \<Rightarrow> world \<Rightarrow> (signal + unit) \<times> world" where
  "add_init_file path w = write_file (path @ ''/'' @ INIT_FILENAME) [] w"

text \<open>
  \<^verbatim>\<open>_copy_file(dir_name, filename, search=None, replace=None)\<close>; the source file is the
  one of that name in the package's \<^verbatim>\<open>default_install/\<close> directory (\<^verbatim>\<open>_get_src\<close>).
\<close>

definition copy_file :: "string \<Rightarrow> string \<Rightarrow> string option \<Rightarrow> string option \<Rightarrow> world \<Rightarrow> (signal + unit) \<times> world" where
  "copy_file dir_name filename search replace w =
     (case map_of (default_install w) filename of
        None \<Rightarrow> (Inl (IOError (DEFAULT_INSTALL_DIR @ filename)), w)
      | Some src_content \<Rightarrow>
          (let content =
                 (case (search, replace) of
                    (Some old, Some new) \<Rightarrow> py_replace src_content old new
                  | _ \<Rightarrow> src_content)
           in write_file (dir_name @ ''/'' @ filename) content w))"

text \<open>\<^verbatim>\<open>_exit_if_dir_exists(dir_name)\<close>; \<^verbatim>\<open>os.path.abspath\<close> puts the working directory in front.\<close>

definition exit_if_dir_exists :: "string \<Rightarrow> world \<Rightarrow> (signal + unit) \<times> world" where
  "exit_if_dir_exists dir_name w =
     (if path_exists w dir_name then
        sys_exit 1
          (stderr_write
             (''command error: '' @ [CHR 0x27] @ cwd w @ ''/'' @ dir_name @ [CHR 0x27]
                @ '' already exists'' @ [LF]) w)
      else (Inr (), w))"

text \<open>\<^verbatim>\<open>cmd_startproject(name)\<close>, with \<^verbatim>\<open>DEFAULT_LOG_DIR = '%s/logs'\<close>\<close>

definition cmd_startproject :: "string \<Rightarrow> world \<Rightarrow> (signal + unit) \<times> world" where
  "cmd_startproject name w =
     and_then (exit_if_dir_exists name w) (\<lambda>w.
     and_then (makedirs (name @ ''/logs'') w) (\<lambda>w.
     and_then (copy_file name FILENAME_SETTINGS (Some PLACEHOLDER_NAME) (Some name) w) (\<lambda>w.
     add_init_file name w)))"

text \<open>\<^verbatim>\<open>cmd_addtestgroup(name)\<close>\<close>

definition cmd_addtestgroup :: "string \<Rightarrow> world \<Rightarrow> (signal + unit) \<times> world" where
  "cmd_addtestgroup name w =
     and_then (exit_if_dir_exists name w) (\<lambda>w.
     and_then (makedirs name w) (\<lambda>w.
     and_then (add_init_file name w) (\<lambda>w.
     and_then (copy_file name FILENAME_RUNLIST None None w) (\<lambda>w.
     copy_file name FILENAME_TESTSUITE None None w))))"

text \<open>The parsed command line: \<^verbatim>\<open>args.cmd\<close> and \<^verbatim>\<open>args.name\<close>.\<close>

record args =
  args_cmd :: string
  args_name :: string

definition UNSUPPORTED_MSG :: string where
  "UNSUPPORTED_MSG = ''error: unsupported characters in name'' @ [LF]"

text \<open>\<^verbatim>\<open>execute()\<close>\<close>

definition execute :: "env \<Rightarrow> args \<Rightarrow> world \<Rightarrow> (signal + unit) \<times> world" where
  "execute e a w =
     (let cmd = args_cmd a in
      if cmd \<in> set CMDS_WITH_NAME_ARG then
        (let name = args_name a in
         if \<not> is_valid_name name then sys_exit 1 (stderr_write UNSUPPORTED_MSG w)
         else if cmd = CMD_STARTPROJECT then cmd_startproject (args_name a) w
         else if cmd = CMD_ADDTESTGROUP then cmd_addtestgroup (args_name a) w
         else (Inr (), w))
      else if cmd = CMD_RUN then cmd_run e w
      else (Inr (), w))"

section \<open>Sequences of assertion calls\<close>

text \<open>
  A harness that makes one assertion call after the other on one engine and catches
  each failure, as \<^verbatim>\<open>test_assert_counters\<close> does around \<^verbatim>\<open>test_in\<close>. A call is the
  operation and its arguments.
\<close>

fun run_calls :: "(kind \<times> pyval list) list \<Rightarrow> asserts \<Rightarrow> asserts" where
  "run_calls [] s = s"
| "run_calls (c # cs) s = run_calls cs (snd (assert_call (fst c) (snd c) s))"

text \<open>
  A call attempts an assertion when its predicate has a value; it passes when the
  value is true and fails when the value is false.
\<close>

definition call_attempted :: "kind \<times> pyval list \<Rightarrow> bool" where
  "call_attempted c = (holds (fst c) (snd c) \<noteq> None)"

definition call_passed :: "kind \<times> pyval list \<Rightarrow> bool" where
  "call_passed c = (holds (fst c) (snd c) = Some True)"

definition call_failed :: "kind \<times> pyval list \<Rightarrow> bool" where
  "call_failed c = (holds (fst c) (snd c) = Some False)"

section \<open>Example worlds\<close>

text \<open>A project with a run list in the working directory and one in a test group.\<close>

definition runlist_world :: world where
  "runlist_world =
     \<lparr>cwd = ''/home/user/project'',
      entries =
        [(''RUNLIST'', File (''# comment'' @ [LF] @ ''mysuite'')),
         (''grp'', Dir [(''RUNLIST'',
            File (''b.py'' @ [LF] @ [LF] @ ''#a.py'' @ [LF] @ ''b.py'' @ [LF] @ '' # c'' @ [LF]))])],
      default_install = [],
      importer = (\<lambda>name package. None),
      stderr = [],
      instances = [],
      invocations = []\<rparr>"

text \<open>
  An empty working directory, with the three files that the package installs by
  default.
\<close>

definition scaffold_world :: world where
  "scaffold_world =
     \<lparr>cwd = ''/home/user'',
      entries = [],
      default_install =
        [(''settings.py'', ''PROJECT = <Example>''),
         (''RUNLIST'', ''# example_testsuite.py''),
         (''example_testsuite.py'', ''import testvibe'')],
      importer = (\<lambda>name package. None),
      stderr = [],
      instances = [],
      invocations = []\<rparr>"

section \<open>Example suites\<close>

text \<open>
  A base class with some of its methods (their bodies play no role in discovery), a
  suite declared in the module \<^verbatim>\<open>grp.mysuite\<close>, and that module, which also binds the
  base class (\<^verbatim>\<open>from testvibe import Testsuite\<close>) and the package.
\<close>

definition base_suite :: pyclass where
  "base_suite =
     Class ''Testsuite'' ''testvibe'' []
       [(''RESERVED_NAMES'', Data (PTuple [PStr ''test'', PStr ''assert_equal'', PStr ''a_eq''])),
        (''test'', Function ''test'' []),
        (''assert_equal'', Function ''assert_equal'' []),
        (''a_eq'', Function ''assert_equal'' []),
        (''run_count'', Function ''run_count'' [])]"

definition my_suite :: pyclass where
  "my_suite =
     Class ''MySuite'' ''grp.mysuite'' [base_suite]
       [(''test_sum'', Function ''test_sum'' [Call_self ''assert_equal'' [PInt 2, PInt 2]]),
        (''test_order'', Function ''test_order''
           [Call_self ''a_lt'' [PInt 1, PInt 2], Call_self ''a_not_null'' [PStr ''x'']]),
        (''_helper'', Function ''_helper'' []),
        (''a_eq'', Function ''a_eq'' []),
        (''LIMIT'', Data (PInt 3))]"

definition my_module :: pymodule where
  "my_module =
     [(''__name__'', Data (PStr ''grp.mysuite'')),
      (''testvibe'', Module ''testvibe''),
      (''Testsuite'', Type base_suite),
      (''MySuite'', Type my_suite),
      (''LIMIT'', Data (PInt 3))]"

definition my_env :: env where
  "my_env =
     \<lparr>Testsuite = base_suite,
      RESERVED_NAMES = [''test'', ''assert_equal'', ''a_eq''],
      order_tcases = rev,
      order_classes = rev,
      order_strings = rev\<rparr>"

text \<open>
  A class is declared in a module when its \<^verbatim>\<open>__module__\<close> is the module's
  \<^verbatim>\<open>__name__\<close>.
\<close>

definition declared_in :: "pymodule \<Rightarrow> pyclass \<Rightarrow> bool" where
  "declared_in mdl c = (map_of mdl ''__name__'' = Some (Data (PStr (cmodule c))))"

text \<open>A module without suite classes, and a project whose group \<^verbatim>\<open>grp\<close> holds both modules.\<close>

definition helpers_module :: pymodule where
  "helpers_module =
     [(''__name__'', Data (PStr ''grp.helpers'')),
      (''LIMIT'', Data (PInt 3)),
      (''Plain'', Type (Class ''Plain'' ''grp.helpers'' [] []))]"

definition my_world :: world where
  "my_world =
     \<lparr>cwd = ''/home/user/project'',
      entries =
        [(''grp'', Dir [(''RUNLIST'', File (''# comment'' @ [LF] @ ''mysuite.py'' @ [LF])),
                       (''__init__.py'', File []),
                       (''mysuite.py'', File ''import testvibe''),
                       (''helpers.py'', File ''LIMIT = 3'')]),
         (''settings.py'', File [])],
      default_install = [],
      importer = (\<lambda>name package.
         if name = ''.mysuite'' \<and> package = ''grp'' then Some my_module
         else if name = ''.helpers'' \<and> package = ''grp'' then Some helpers_module
         else None),
      stderr = [],
      instances = [],
      invocations = []\<rparr>"

section \<open>Test cases called in turn on one engine\<close>

text \<open>
  The test cases of a list called one after the other on the same engine, each
  starting from the counters that the one before left; the first signal ends the
  sequence. The second function gives the test cases that are called: those up to and
  including the first that raises.
\<close>

fun call_tcases :: "pyobj list \<Rightarrow> asserts \<Rightarrow> (signal + unit) \<times> asserts" where
  "call_tcases [] s = (Inr (), s)"
| "call_tcases (tc # tcs) s =
     (case call_tcase tc s of
        (Inl sig, s') \<Rightarrow> (Inl sig, s')
      | (Inr u, s') \<Rightarrow> call_tcases tcs s')"

fun called_tcases :: "pyobj list \<Rightarrow> asserts \<Rightarrow> pyobj list" where
  "called_tcases [] s = []"
| "called_tcases (tc # tcs) s =
     (case call_tcase tc s of
        (Inl sig, s') \<Rightarrow> [tc]
      | (Inr u, s') \<Rightarrow> tc # called_tcases tcs s')"

section \<open>What the dispatcher resolves\<close>

text \<open>
  The module that the dispatcher imports for a suite identifier (lines 97 to 105 of
  \<^verbatim>\<open>_run_tsuites\<close>), and the test group of a run list (lines 77 to 83 of \<^verbatim>\<open>cmd_run\<close>),
  named so that statements about \<open>run_tsuite\<close> and \<open>run_runlist\<close> can speak of them.
\<close>

definition module_of :: "world \<Rightarrow> string \<Rightarrow> string \<Rightarrow> pymodule option" where
  "module_of w tgroup tsuite0 =
     (let tsuite = (if CHR ''/'' \<in> set tsuite0 then last (split tsuite0 (CHR ''/'')) else tsuite0)
      in importer w (''.'' @ take (length tsuite - 3) tsuite) tgroup)"

definition tgroup_of :: "world \<Rightarrow> string \<Rightarrow> string" where
  "tgroup_of w rl =
     (if CHR ''/'' \<in> set rl then hd (split rl (CHR ''/'')) else last (split (cwd w) (CHR ''/'')))"

text \<open>
  The project with a run list of three suites, the second of which has no suite
  class.
\<close>

definition exit_world :: world where
  "exit_world =
     my_world\<lparr>entries :=
       [(''grp'', Dir [(''RUNLIST'',
           File (''mysuite.py'' @ [LF] @ ''helpers.py'' @ [LF] @ ''mysuite.py'' @ [LF]))])]\<rparr>"

section \<open>The counters of the assertion engine\<close>

lemma assert_call_counters:
  "get_assert_counters (snd (assert_call k args s)) =
     (pass_count s + (if holds k args = Some True then 1 else 0),
      attempted_count s + (if holds k args = None then 0 else 1))"
  by (cases "holds k args") (auto simp: assert_call_def get_assert_counters_def)

text \<open>
  Claim C1. On a fresh suite the counters are \<open>(0, 0)\<close>; a successful
  \<^verbatim>\<open>assert_equal(9, 9)\<close> makes them \<open>(1, 1)\<close>, a successful null check \<open>(2, 2)\<close>, a
  successful less-or-equal \<open>(3, 3)\<close>, and a failing \<^verbatim>\<open>assert_in\<close>, which raises the
  failure of kind \<open>In\<close>, \<open>(3, 4)\<close>. The test \<^verbatim>\<open>test_assert_counters\<close> of the repository
  passes. For every assertion call, the first counter grows by one exactly when the
  assertion succeeds and the second grows by one whenever an assertion is attempted.
\<close>

theorem counters_scenario:
  "get_assert_counters fresh_asserts = (0, 0) \<and>
   (let (r1, s1) = call_method ''assert_equal'' [PInt 9, PInt 9] fresh_asserts;
        (r2, s2) = call_method ''assert_null'' [PNone] s1;
        (r3, s3) = call_method ''assert_lesser_than_or_equal'' [PInt 7, PInt 9] s2;
        (r4, s4) = call_method ''assert_in'' [PInt 3, PList [PInt 1, PInt 2, PInt 4]] s3
    in r1 = Inr () \<and> get_assert_counters s1 = (1, 1) \<and>
       r2 = Inr () \<and> get_assert_counters s2 = (2, 2) \<and>
       r3 = Inr () \<and> get_assert_counters s3 = (3, 3) \<and>
       r4 = Inl (AssertionException In [PInt 3, PList [PInt 1, PInt 2, PInt 4]]) \<and>
       get_assert_counters s4 = (3, 4)) \<and>
   test_assert_counters fresh_asserts \<and>
   get_assert_counters (snd (assert_call k args s)) =
     (pass_count s + (if holds k args = Some True then 1 else 0),
      attempted_count s + (if holds k args = None then 0 else 1))"
proof -
  have start: "get_assert_counters fresh_asserts = (0, 0)"
    by (simp add: get_assert_counters_def fresh_asserts_def)
  have steps:
    "(let (r1, s1) = call_method ''assert_equal'' [PInt 9, PInt 9] fresh_asserts;
          (r2, s2) = call_method ''assert_null'' [PNone] s1;
          (r3, s3) = call_method ''assert_lesser_than_or_equal'' [PInt 7, PInt 9] s2;
          (r4, s4) = call_method ''assert_in'' [PInt 3, PList [PInt 1, PInt 2, PInt 4]] s3
      in r1 = Inr () \<and> get_assert_counters s1 = (1, 1) \<and>
         r2 = Inr () \<and> get_assert_counters s2 = (2, 2) \<and>
         r3 = Inr () \<and> get_assert_counters s3 = (3, 3) \<and>
         r4 = Inl (AssertionException In [PInt 3, PList [PInt 1, PInt 2, PInt 4]]) \<and>
         get_assert_counters s4 = (3, 4))"
    by code_simp
  have test: "test_assert_counters fresh_asserts"
    by code_simp
  show ?thesis
    using start steps test assert_call_counters by blast
qed

lemma run_calls_counters:
  "get_assert_counters (run_calls cs s) =
     (pass_count s + length (filter call_passed cs),
      attempted_count s + length (filter call_attempted cs))"
proof (induction cs arbitrary: s)
  case Nil
  then show ?case by (simp add: get_assert_counters_def)
next
  case (Cons c cs)
  let ?s = "snd (assert_call (fst c) (snd c) s)"
  have step: "pass_count ?s = pass_count s + (if call_passed c then 1 else 0)"
    "attempted_count ?s = attempted_count s + (if call_attempted c then 1 else 0)"
    using assert_call_counters [of "fst c" "snd c" s]
    by (simp_all add: get_assert_counters_def call_passed_def call_attempted_def)
  show ?case
    using Cons.IH [of ?s] step by simp
qed

lemma passed_plus_failed:
  "length (filter call_passed cs) + length (filter call_failed cs) =
     length (filter call_attempted cs)"
proof (induction cs)
  case Nil
  then show ?case by simp
next
  case (Cons c cs)
  then show ?case
    by (cases "holds (fst c) (snd c)")
       (auto simp: call_passed_def call_failed_def call_attempted_def)
qed

text \<open>
  Claim C2, as the specification words it: after \<open>n\<close> assertion calls of which \<open>k\<close>
  failed the counters are \<open>(n, k)\<close>. One successful \<^verbatim>\<open>assert_equal(9, 9)\<close> refutes it:
  \<open>n = 1\<close> and \<open>k = 0\<close>, and the counters are \<open>(1, 1)\<close>, as \<^verbatim>\<open>test_assert_counters\<close>
  asserts.
\<close>

theorem counters_not_total_and_failures:
  "get_assert_counters (run_calls [(Equal, [PInt 9, PInt 9])] fresh_asserts) = (1, 1) \<and>
   (length [(Equal, [PInt 9, PInt 9])],
    length (filter call_failed [(Equal, [PInt 9, PInt 9])])) = (1, 0) \<and>
   get_assert_counters (run_calls [(Equal, [PInt 9, PInt 9])] fresh_asserts) \<noteq>
     (length [(Equal, [PInt 9, PInt 9])],
      length (filter call_failed [(Equal, [PInt 9, PInt 9])]))"
  by code_simp

text \<open>
  Claim C2, amended. After any sequence of assertion calls on a fresh engine, of which
  \<open>n\<close> attempted an assertion and \<open>k\<close> of those failed, the counters are \<open>(n - k, n)\<close>:
  the first component is the number of successful assertions and the second the
  number of attempted assertions.
\<close>

theorem counters_after_calls:
  "get_assert_counters (run_calls cs fresh_asserts) =
     (length (filter call_attempted cs) - length (filter call_failed cs),
      length (filter call_attempted cs))"
  using run_calls_counters [of cs fresh_asserts] passed_plus_failed [of cs]
  by (simp add: fresh_asserts_def)

section \<open>Aliases\<close>

text \<open>
  Claim C5. Every alias that \<^verbatim>\<open>BasicTestSuite\<close> calls is the same function of the
  arguments and the engine as the canonical operation: the same result (success, or a
  failure of the same kind with the same operands) and the same counters afterwards,
  for all inputs.
\<close>

theorem aliases_identical:
  "test_equal_alias_1 = test_equal \<and> test_equal_alias_2 = test_equal \<and>
   test_not_equal_alias_1 = test_not_equal \<and> test_not_equal_alias_2 = test_not_equal \<and>
   test_null_alias_1 = test_null \<and> test_not_null_alias_1 = test_not_null \<and>
   test_true_alias_1 = test_true \<and> test_false_alias_1 = test_false \<and>
   test_in_alias_1 = test_in \<and> test_not_in_alias_1 = test_not_in \<and>
   test_greater_than_alias_1 = test_greater_than \<and>
   test_greater_than_alias_2 = test_greater_than \<and>
   test_greater_than_or_equal_alias_1 = test_greater_than_or_equal \<and>
   test_greater_than_or_equal_alias_2 = test_greater_than_or_equal \<and>
   test_lesser_than_alias_1 = test_lesser_than \<and>
   test_lesser_than_alias_2 = test_lesser_than \<and>
   test_lesser_than_or_equal_alias_1 = test_lesser_than_or_equal \<and>
   test_lesser_than_or_equal_alias_2 = test_lesser_than_or_equal \<and>
   test_is_a_number_alias1 = test_is_a_number \<and>
   test_is_a_number_alias2 = test_is_a_number"
proof -
  have m: "map_of assert_methods ''assert_equal'' = Some Equal"
    "map_of assert_methods ''assert_eq'' = Some Equal"
    "map_of assert_methods ''a_eq'' = Some Equal"
    "map_of assert_methods ''assert_not_equal'' = Some NotEqual"
    "map_of assert_methods ''assert_neq'' = Some NotEqual"
    "map_of assert_methods ''a_neq'' = Some NotEqual"
    "map_of assert_methods ''assert_null'' = Some IsNull"
    "map_of assert_methods ''a_null'' = Some IsNull"
    "map_of assert_methods ''assert_not_null'' = Some IsNotNull"
    "map_of assert_methods ''a_not_null'' = Some IsNotNull"
    "map_of assert_methods ''assert_true'' = Some IsNotTrue"
    "map_of assert_methods ''a_true'' = Some IsNotTrue"
    "map_of assert_methods ''assert_false'' = Some IsNotFalse"
    "map_of assert_methods ''a_false'' = Some IsNotFalse"
    "map_of assert_methods ''assert_in'' = Some In"
    "map_of assert_methods ''a_in'' = Some In"
    "map_of assert_methods ''assert_not_in'' = Some NotIn"
    "map_of assert_methods ''a_not_in'' = Some NotIn"
    "map_of assert_methods ''assert_greater_than'' = Some GreaterThan"
    "map_of assert_methods ''assert_gt'' = Some GreaterThan"
    "map_of assert_methods ''a_gt'' = Some GreaterThan"
    "map_of assert_methods ''assert_greater_than_or_equal'' = Some GreaterThanOrEqual"
    "map_of assert_methods ''assert_gte'' = Some GreaterThanOrEqual"
    "map_of assert_methods ''a_gte'' = Some GreaterThanOrEqual"
    "map_of assert_methods ''assert_lesser_than'' = Some LesserThan"
    "map_of assert_methods ''assert_lt'' = Some LesserThan"
    "map_of assert_methods ''a_lt'' = Some LesserThan"
    "map_of assert_methods ''assert_lesser_than_or_equal'' = Some LesserThanOrEqual"
    "map_of assert_methods ''assert_lte'' = Some LesserThanOrEqual"
    "map_of assert_methods ''a_lte'' = Some LesserThanOrEqual"
    "map_of assert_methods ''assert_is_a_number'' = Some IsANumber"
    "map_of assert_methods ''assert_is_n'' = Some IsANumber"
    "map_of assert_methods ''a_is_n'' = Some IsANumber"
    by code_simp+
  show ?thesis
    unfolding test_equal_def test_equal_alias_1_def test_equal_alias_2_def
      test_not_equal_def test_not_equal_alias_1_def test_not_equal_alias_2_def
      test_null_def test_null_alias_1_def test_not_null_def test_not_null_alias_1_def
      test_true_def test_true_alias_1_def test_false_def test_false_alias_1_def
      test_in_def test_in_alias_1_def test_not_in_def test_not_in_alias_1_def
      test_greater_than_def test_greater_than_alias_1_def test_greater_than_alias_2_def
      test_greater_than_or_equal_def test_greater_than_or_equal_alias_1_def
      test_greater_than_or_equal_alias_2_def
      test_lesser_than_def test_lesser_than_alias_1_def test_lesser_than_alias_2_def
      test_lesser_than_or_equal_def test_lesser_than_or_equal_alias_1_def
      test_lesser_than_or_equal_alias_2_def
      test_is_a_number_def test_is_a_number_alias1_def test_is_a_number_alias2_def
      fun_eq_iff call_method_def m
    by simp
qed

section \<open>Parsing a run list\<close>

lemma LF_neq_CR: "LF \<noteq> CR"
  by (simp add: LF_def CR_def)

lemma splitlines_from_line:
  "LF \<notin> set l \<Longrightarrow> CR \<notin> set l \<Longrightarrow>
   splitlines_from cur (l @ LF # s) = (cur @ l) # splitlines_from [] s"
  by (induction l arbitrary: cur) auto

lemma splitlines_from_rest:
  "LF \<notin> set r \<Longrightarrow> CR \<notin> set r \<Longrightarrow>
   splitlines_from cur r = (if cur @ r = [] then [] else [cur @ r])"
  by (induction r arbitrary: cur) auto

lemma splitlines_terminated:
  assumes "\<forall>l \<in> set (r # ls). LF \<notin> set l \<and> CR \<notin> set l"
  shows "splitlines (concat (map (\<lambda>l. l @ [LF]) ls) @ r) = ls @ (if r = [] then [] else [r])"
  using assms
proof (induction ls)
  case Nil
  then show ?case
    using splitlines_from_rest [of r "[]"] by (simp add: splitlines_def)
next
  case (Cons l ls)
  then have "splitlines_from [] (l @ LF # (concat (map (\<lambda>l. l @ [LF]) ls) @ r)) =
      l # splitlines_from [] (concat (map (\<lambda>l. l @ [LF]) ls) @ r)"
    using splitlines_from_line [of l "[]"] by simp
  with Cons show ?case
    by (simp add: splitlines_def)
qed

lemma foldl_append_if:
  "foldl (\<lambda>acc x. if P x then acc @ [x] else acc) acc xs = acc @ filter P xs"
  by (induction xs arbitrary: acc) auto

lemma startswith_comment:
  "startswith l RUNLIST_COMMENT_PREFIX \<longleftrightarrow> l \<noteq> [] \<and> hd l = CHR ''#''"
  by (cases l) (auto simp: startswith_def RUNLIST_COMMENT_PREFIX_def)

lemma parse_runlist_filter:
  "parse_runlist w path =
     (case read_file w path of
        Inl sig \<Rightarrow> Inl sig
      | Inr content \<Rightarrow> Inr (filter (\<lambda>l. \<not> startswith l RUNLIST_COMMENT_PREFIX) (splitlines content)))"
  using foldl_append_if [of "\<lambda>l. \<not> startswith l RUNLIST_COMMENT_PREFIX" "[]"]
  by (simp add: parse_runlist_def split: sum.splits)

text \<open>
  Claim C6. Parsing a run list that can be read returns the lines of the text, as
  \<^verbatim>\<open>splitlines\<close> gives them, without exactly those lines whose first character is
  \<^verbatim>\<open>#\<close>; the other lines are returned as they are, in their order and with their
  repetitions. For a text made of lines without line ends, each ended by a newline,
  and a last line that may lack the newline, \<^verbatim>\<open>splitlines\<close> gives exactly these lines:
  a blank line is kept as the empty identifier.
\<close>

theorem parse_runlist_lines:
  assumes "read_file w path = Inr content"
  shows "parse_runlist w path =
       Inr (filter (\<lambda>l. \<not> (l \<noteq> [] \<and> hd l = CHR ''#'')) (splitlines content)) \<and>
     ((\<forall>l \<in> set (r # ls). LF \<notin> set l \<and> CR \<notin> set l) \<and>
      content = concat (map (\<lambda>l. l @ [LF]) ls) @ r \<longrightarrow>
      splitlines content = ls @ (if r = [] then [] else [r]))"
  using assms splitlines_terminated [of r ls]
  by (simp add: parse_runlist_filter startswith_comment)

theorem parse_runlist_lines_witness:
  "read_file runlist_world ''RUNLIST'' = Inr (''# comment'' @ [LF] @ ''mysuite'') \<and>
   parse_runlist runlist_world ''RUNLIST'' = Inr [''mysuite''] \<and>
   read_file runlist_world ''grp/RUNLIST'' =
     Inr (''b.py'' @ [LF] @ [LF] @ ''#a.py'' @ [LF] @ ''b.py'' @ [LF] @ '' # c'' @ [LF]) \<and>
   parse_runlist runlist_world ''grp/RUNLIST'' = Inr [''b.py'', [], ''b.py'', '' # c'']"
proof -
  have r1: "read_file runlist_world ''RUNLIST'' = Inr (''# comment'' @ [LF] @ ''mysuite'')"
    by (simp add: read_file_def runlist_world_def path_parts_def split_def)
  have r2: "read_file runlist_world ''grp/RUNLIST'' =
      Inr (''b.py'' @ [LF] @ [LF] @ ''#a.py'' @ [LF] @ ''b.py'' @ [LF] @ '' # c'' @ [LF])"
    by (simp add: read_file_def runlist_world_def path_parts_def split_def)
  have f1: "\<forall>l \<in> set [''mysuite'', ''# comment'']. LF \<notin> set l \<and> CR \<notin> set l"
    by (simp add: LF_def CR_def)
  have f2: "\<forall>l \<in> set [[], ''b.py'', [], ''#a.py'', ''b.py'', '' # c'']. LF \<notin> set l \<and> CR \<notin> set l"
    by (simp add: LF_def CR_def)
  have s1: "splitlines (''# comment'' @ [LF] @ ''mysuite'') = [''# comment'', ''mysuite'']"
    using parse_runlist_lines [OF r1, of "''mysuite''" "[''# comment'']"] f1 by simp
  have s2: "splitlines (''b.py'' @ [LF] @ [LF] @ ''#a.py'' @ [LF] @ ''b.py'' @ [LF] @ '' # c'' @ [LF])
      = [''b.py'', [], ''#a.py'', ''b.py'', '' # c'']"
    using parse_runlist_lines [OF r2, of "[]" "[''b.py'', [], ''#a.py'', ''b.py'', '' # c'']"] f2
    by simp
  show ?thesis
    using parse_runlist_lines [OF r1] parse_runlist_lines [OF r2] r1 r2 s1 s2
    by simp
qed

section \<open>Valid names\<close>

lemma plus_class_dollar:
  "re_match_here False s [Plus_class cl, Dollar] \<longleftrightarrow>
     (\<exists>b. b \<noteq> [] \<and> list_all (in_class cl) b \<and> (s = b \<or> s = b @ [LF]))"
proof (induction s)
  case Nil
  then show ?case by simp
next
  case (Cons c cs)
  show ?case
  proof
    assume m: "re_match_here False (c # cs) [Plus_class cl, Dollar]"
    then have c: "in_class cl c" by simp
    from m consider "re_match_here False cs [Plus_class cl, Dollar]" | "cs = [] \<or> cs = [LF]"
      by auto
    then show "\<exists>b. b \<noteq> [] \<and> list_all (in_class cl) b \<and> (c # cs = b \<or> c # cs = b @ [LF])"
    proof cases
      case 1
      with Cons.IH obtain b where "b \<noteq> []" "list_all (in_class cl) b" "cs = b \<or> cs = b @ [LF]"
        by blast
      with c have "c # b \<noteq> [] \<and> list_all (in_class cl) (c # b) \<and>
          (c # cs = c # b \<or> c # cs = (c # b) @ [LF])"
        by auto
      then show ?thesis by blast
    next
      case 2
      with c have "[c] \<noteq> [] \<and> list_all (in_class cl) [c] \<and> (c # cs = [c] \<or> c # cs = [c] @ [LF])"
        by auto
      then show ?thesis by blast
    qed
  next
    assume "\<exists>b. b \<noteq> [] \<and> list_all (in_class cl) b \<and> (c # cs = b \<or> c # cs = b @ [LF])"
    then obtain b where b: "b \<noteq> []" "list_all (in_class cl) b" "c # cs = b \<or> c # cs = b @ [LF]"
      by blast
    then obtain b' where b': "b = c # b'"
      by (cases b) auto
    with b have c: "in_class cl c" and rest: "list_all (in_class cl) b'"
      and cs: "cs = b' \<or> cs = b' @ [LF]"
      by auto
    show "re_match_here False (c # cs) [Plus_class cl, Dollar]"
    proof (cases "b' = []")
      case True
      with c cs show ?thesis by auto
    next
      case False
      with rest cs Cons.IH have "re_match_here False cs [Plus_class cl, Dollar]"
        by blast
      with c show ?thesis by simp
    qed
  qed
qed

text \<open>
  The names that \<^verbatim>\<open>_is_valid_name\<close> accepts: one or more characters of the class,
  and nothing else but, possibly, one newline at the end.
\<close>

lemma is_valid_name_iff:
  "is_valid_name s \<longleftrightarrow>
     (\<exists>b. b \<noteq> [] \<and>
        list_all (in_class [(CHR ''A'', CHR ''Z''), (CHR ''a'', CHR ''z''),
                            (CHR ''0'', CHR ''9''), (CHR ''_'', CHR ''_'')]) b \<and>
        (s = b \<or> s = b @ [LF]))"
proof (cases s)
  case Nil
  then show ?thesis
    by (simp add: is_valid_name_def re_match_def RE_VALID_NAME_def)
next
  case (Cons c cs)
  have "is_valid_name s \<longleftrightarrow>
      re_match_here False s
        [Plus_class [(CHR ''A'', CHR ''Z''), (CHR ''a'', CHR ''z''),
                     (CHR ''0'', CHR ''9''), (CHR ''_'', CHR ''_'')], Dollar]"
    unfolding is_valid_name_def re_match_def RE_VALID_NAME_def Cons
    by simp
  then show ?thesis
    by (simp only: plus_class_dollar)
qed

text \<open>
  For \<^verbatim>\<open>startproject\<close> and \<^verbatim>\<open>addtestgroup\<close>, a name that is not accepted ends the
  process with status 1 and a message on the standard error stream; the world is
  otherwise untouched: the command has not run.
\<close>

lemma execute_invalid_name:
  assumes "args_cmd a = CMD_STARTPROJECT \<or> args_cmd a = CMD_ADDTESTGROUP"
    and "\<not> is_valid_name (args_name a)"
  shows "execute e a w = (Inl (SystemExit 1), stderr_write UNSUPPORTED_MSG w)"
  using assms by (auto simp: execute_def CMDS_WITH_NAME_ARG_def Let_def sys_exit_def)

text \<open>
  Claim C9. The name argument is meant to be one or more ASCII letters, digits or
  underscores and nothing else. At the name \<^verbatim>\<open>abc\<close> followed by a newline the handler
  does not exit: \<^verbatim>\<open>_is_valid_name\<close> accepts the name, nothing is written to the
  standard error stream, and \<^verbatim>\<open>startproject\<close> creates the directory of that name.
\<close>

theorem trailing_newline_accepted:
  "is_valid_name (''abc'' @ [LF]) \<and>
   fst (execute e \<lparr>args_cmd = ''startproject'', args_name = ''abc'' @ [LF]\<rparr> scaffold_world)
     = Inr () \<and>
   stderr (snd (execute e \<lparr>args_cmd = ''startproject'', args_name = ''abc'' @ [LF]\<rparr>
     scaffold_world)) = [] \<and>
   entries (snd (execute e \<lparr>args_cmd = ''startproject'', args_name = ''abc'' @ [LF]\<rparr>
     scaffold_world)) =
     [(''abc'' @ [LF],
       Dir [(''logs'', Dir []),
            (''settings.py'', File (''PROJECT = abc'' @ [LF])),
            (''__init__.py'', File [])])]"
proof -
  have v: "is_valid_name (''abc'' @ [LF])"
    by code_simp
  then have x: "execute e \<lparr>args_cmd = ''startproject'', args_name = ''abc'' @ [LF]\<rparr> scaffold_world
      = cmd_startproject (''abc'' @ [LF]) scaffold_world"
    by (simp add: execute_def CMDS_WITH_NAME_ARG_def CMD_STARTPROJECT_def CMD_ADDTESTGROUP_def)
  have r: "fst (cmd_startproject (''abc'' @ [LF]) scaffold_world) = Inr ()"
    by code_simp
  have s: "stderr (snd (cmd_startproject (''abc'' @ [LF]) scaffold_world)) = []"
    by code_simp
  have f: "entries (snd (cmd_startproject (''abc'' @ [LF]) scaffold_world)) =
     [(''abc'' @ [LF],
       Dir [(''logs'', Dir []),
            (''settings.py'', File (''PROJECT = abc'' @ [LF])),
            (''__init__.py'', File [])])]"
    by code_simp
  show ?thesis
    using v r s f by (simp only: x)
qed

section \<open>Discovery of test cases and suite classes\<close>

lemma set_set_add: "set (set_add s x) = insert x (set s)"
  by (auto simp: set_add_def)

lemma distinct_set_add: "distinct s \<Longrightarrow> distinct (set_add s x)"
  by (simp add: set_add_def)

lemma getattr_own:
  "map_of (cdict cl) name = Some v \<Longrightarrow> getattr_class cl name = Some v"
  by (cases cl) simp

lemma tcases_step_set:
  "set (tcases_step rn cl acc name) =
     set acc \<union> {v. \<not> startswith name ''_'' \<and> name \<notin> set rn \<and>
                   map_of (cdict cl) name = Some v \<and> callable v}"
proof (cases "map_of (cdict cl) name")
  case None
  then have "name \<notin> set (map fst (cdict cl))"
    by (simp add: map_of_eq_None_iff)
  with None show ?thesis
    by (simp add: tcases_step_def)
next
  case (Some v)
  then have own: "name \<in> set (map fst (cdict cl))"
    by (metis map_of_eq_None_iff option.distinct(1) set_map)
  from Some have "getattr_class cl name = Some v"
    by (rule getattr_own)
  with Some own show ?thesis
    by (auto simp: tcases_step_def set_set_add)
qed

lemma tcases_step_distinct: "distinct acc \<Longrightarrow> distinct (tcases_step rn cl acc name)"
  by (auto simp: tcases_step_def distinct_set_add split: option.splits)

lemma tcases_fold_set:
  "set (foldl (tcases_step rn cl) acc names) =
     set acc \<union> {v. \<exists>name. name \<in> set names \<and> \<not> startswith name ''_'' \<and> name \<notin> set rn \<and>
                   map_of (cdict cl) name = Some v \<and> callable v}"
proof (induction names arbitrary: acc)
  case Nil
  then show ?case by simp
next
  case (Cons n names)
  show ?case
    unfolding foldl_Cons Cons.IH tcases_step_set by auto
qed

lemma tcases_fold_distinct:
  "distinct acc \<Longrightarrow> distinct (foldl (tcases_step rn cl) acc names)"
  by (induction names arbitrary: acc) (simp_all add: tcases_step_distinct)

lemma own_names_in_dir: "map_of (cdict cl) name = Some v \<Longrightarrow> name \<in> set (dir_class cl)"
proof (cases cl)
  case (Class n m bs d)
  assume "map_of (cdict cl) name = Some v"
  with Class have "name \<in> fst ` set d"
    by (metis map_of_eq_None_iff option.distinct(1) pyclass.sel(4))
  with Class show ?thesis by simp
qed

text \<open>
  Claim C3. For every suite class, the test cases that discovery returns are exactly
  the objects bound to a name that does not start with an underscore, is not a
  reserved name, is a key of the class's own dictionary (not merely inherited from the
  base class or another ancestor), and whose object is callable; each is returned
  once. So nothing reaches the result through a reserved name, a private name or an
  inherited name.
\<close>

theorem tcases_exactly_own_public_callables:
  "set (get_all_tcases e cl) =
     {v. \<exists>name. \<not> startswith name ''_'' \<and> name \<notin> set (RESERVED_NAMES e) \<and>
          map_of (cdict cl) name = Some v \<and> callable v} \<and>
   distinct (get_all_tcases e cl)"
proof -
  have "set (get_all_tcases e cl) =
     {v. \<exists>name. name \<in> set (dir_class cl) \<and> \<not> startswith name ''_'' \<and>
          name \<notin> set (RESERVED_NAMES e) \<and> map_of (cdict cl) name = Some v \<and> callable v}"
    by (simp add: get_all_tcases_def tcases_fold_set)
  also have "\<dots> = {v. \<exists>name. \<not> startswith name ''_'' \<and> name \<notin> set (RESERVED_NAMES e) \<and>
          map_of (cdict cl) name = Some v \<and> callable v}"
    using own_names_in_dir [of cl] by blast
  finally show ?thesis
    by (simp add: get_all_tcases_def tcases_fold_distinct)
qed

lemma tsuites_step_set:
  "set (tsuites_step e mdl acc name) =
     set acc \<union> {c. map_of mdl name = Some (Type c) \<and> issubclass c (Testsuite e)}"
proof (cases "map_of mdl name")
  case None
  then show ?thesis by (simp add: tsuites_step_def)
next
  case (Some v)
  then show ?thesis
    by (cases v) (auto simp: tsuites_step_def set_set_add)
qed

lemma tsuites_step_distinct: "distinct acc \<Longrightarrow> distinct (tsuites_step e mdl acc name)"
  by (auto simp: tsuites_step_def distinct_set_add split: option.splits pyobj.splits)

lemma tsuites_fold_set:
  "set (foldl (tsuites_step e mdl) acc names) =
     set acc \<union> {c. \<exists>name. name \<in> set names \<and> map_of mdl name = Some (Type c) \<and>
                   issubclass c (Testsuite e)}"
proof (induction names arbitrary: acc)
  case Nil
  then show ?case by simp
next
  case (Cons n names)
  show ?case
    unfolding foldl_Cons Cons.IH tsuites_step_set by auto
qed

lemma tsuites_fold_distinct:
  "distinct acc \<Longrightarrow> distinct (foldl (tsuites_step e mdl) acc names)"
  by (induction names arbitrary: acc) (simp_all add: tsuites_step_distinct)

lemma bound_names_in_dir: "map_of mdl name = Some v \<Longrightarrow> name \<in> set (dir_module mdl)"
  by (metis dir_module_def map_of_eq_None_iff option.distinct(1) set_map set_remdups)

text \<open>
  Claim C4, amended. For every module, the suite classes that discovery returns are
  exactly the classes bound to a name of the module that are subclasses of the base
  class, the base class itself included; each is returned once. Where the class was
  declared plays no role.
\<close>

theorem tsuite_classes_exactly_bound_subclasses:
  "set (get_all_tsuite_classes e mdl) =
     {c. \<exists>name. map_of mdl name = Some (Type c) \<and> issubclass c (Testsuite e)} \<and>
   distinct (get_all_tsuite_classes e mdl)"
proof -
  have "set (get_all_tsuite_classes e mdl) =
     {c. \<exists>name. name \<in> set (dir_module mdl) \<and> map_of mdl name = Some (Type c) \<and>
          issubclass c (Testsuite e)}"
    by (simp add: get_all_tsuite_classes_def tsuites_fold_set)
  also have "\<dots> = {c. \<exists>name. map_of mdl name = Some (Type c) \<and> issubclass c (Testsuite e)}"
    using bound_names_in_dir [of mdl] by blast
  finally show ?thesis
    by (simp add: get_all_tsuite_classes_def tsuites_fold_distinct)
qed

text \<open>
  Claim C4, as the specification words it: classes that are not declared in the module
  itself are excluded. The module \<^verbatim>\<open>grp.mysuite\<close> binds the base class, which the
  package \<^verbatim>\<open>testvibe\<close> declares, and discovery returns it.
\<close>

theorem imported_class_discovered:
  "base_suite \<in> set (get_all_tsuite_classes my_env my_module) \<and>
   map_of my_module ''Testsuite'' = Some (Type base_suite) \<and>
   cmodule base_suite = ''testvibe'' \<and>
   map_of my_module ''__name__'' = Some (Data (PStr ''grp.mysuite'')) \<and>
   \<not> declared_in my_module base_suite"
  by code_simp

section \<open>The module that a suite identifier names\<close>

lemma split_from_no_sep: "sep \<notin> set s \<Longrightarrow> split_from sep cur s = [cur @ s]"
  by (induction s arbitrary: cur) auto

lemma split_from_nonempty: "split_from sep cur s \<noteq> []"
  by (induction s arbitrary: cur) auto

lemma last_split_from:
  "sep \<notin> set base \<Longrightarrow> last (split_from sep cur (g @ sep # base)) = base"
proof (induction g arbitrary: cur)
  case Nil
  then show ?case
    by (simp add: split_from_no_sep split_from_nonempty)
next
  case (Cons c g)
  then show ?case
    by (simp add: split_from_nonempty)
qed

lemma last_split:
  "CHR ''/'' \<notin> set base \<Longrightarrow> last (split (g @ ''/'' @ base) (CHR ''/'')) = base"
  using last_split_from [of "CHR ''/''" base "[]" g] by (simp add: split_def)

text \<open>
  Claim C10. For a suite identifier that is a name without \<^verbatim>\<open>/\<close>, alone or after a
  path ending in \<^verbatim>\<open>/\<close>, the dispatcher asks the module system for the module whose
  relative name is that last segment without its final three characters, in the
  package of the group: the module cannot be imported, or its suite classes are run.
  A segment that ends in \<^verbatim>\<open>.py\<close> loses exactly that suffix; a segment without the
  suffix loses its last three characters all the same.
\<close>

theorem run_tsuite_imports_truncated_name:
  assumes "CHR ''/'' \<notin> set base"
    and "tsuite = base \<or> tsuite = g @ ''/'' @ base"
  shows "run_tsuite e tgroup tsuite w =
       (case importer w (''.'' @ take (length base - 3) base) tgroup of
          None \<Rightarrow> (Inl (ImportError (''.'' @ take (length base - 3) base)), w)
        | Some ts \<Rightarrow>
            if get_all_tsuite_classes e ts = [] then
              sys_exit 1 (stderr_write NO_SUBCLASSES_MSG w)
            else for_each (run_tsuite_class e) (order_classes e (get_all_tsuite_classes e ts)) w) \<and>
     take (length (stem @ ''.py'') - 3) (stem @ ''.py'') = stem"
proof -
  have "(if CHR ''/'' \<in> set tsuite then last (split tsuite (CHR ''/'')) else tsuite) = base"
    using assms last_split [of base g] by auto
  then show ?thesis
    by (simp add: run_tsuite_def Let_def split: option.splits)
qed

theorem run_tsuite_imports_truncated_name_witness:
  "CHR ''/'' \<notin> set ''mysuite.py'' \<and>
   fst (run_tsuite my_env ''grp'' ''grp/mysuite.py'' my_world) = Inr () \<and>
   importer my_world ''.mysuite'' ''grp'' = Some my_module \<and>
   CHR ''/'' \<notin> set ''mysuite'' \<and>
   run_tsuite my_env ''grp'' ''mysuite'' my_world = (Inl (ImportError ''.mysu''), my_world)"
proof -
  have a: "CHR ''/'' \<notin> set ''mysuite.py''" and b: "CHR ''/'' \<notin> set ''mysuite''"
    by simp_all
  have i1: "importer my_world ''.mysuite'' ''grp'' = Some my_module"
    and i2: "importer my_world ''.mysu'' ''grp'' = None"
    by (simp_all add: my_world_def)
  have ne: "get_all_tsuite_classes my_env my_module \<noteq> []"
    by code_simp
  have r: "fst (for_each (run_tsuite_class my_env)
      (order_classes my_env (get_all_tsuite_classes my_env my_module)) my_world) = Inr ()"
    by code_simp
  have "run_tsuite my_env ''grp'' ''grp/mysuite.py'' my_world =
      for_each (run_tsuite_class my_env)
        (order_classes my_env (get_all_tsuite_classes my_env my_module)) my_world"
    using run_tsuite_imports_truncated_name [OF a, of "''grp/mysuite.py''" "''grp''" my_env "''grp''" my_world]
      i1 ne by simp
  moreover have "run_tsuite my_env ''grp'' ''mysuite'' my_world = (Inl (ImportError ''.mysu''), my_world)"
    using run_tsuite_imports_truncated_name [OF b, of "''mysuite''" "[]" my_env "''grp''" my_world]
      i2 by simp
  ultimately show ?thesis
    using a b i1 r by simp
qed

section \<open>One instance for each suite class\<close>

lemma for_each_tcases:
  assumes "i < length (instances w)"
  shows "for_each (\<lambda>tc. testsuite_test i tc i) tcs w =
     (fst (call_tcases tcs (snd (instances w ! i))),
      w\<lparr>instances := (instances w)[i := (fst (instances w ! i),
                                         snd (call_tcases tcs (snd (instances w ! i))))],
        invocations := invocations w @
          map (\<lambda>tc. (i, tc, i)) (called_tcases tcs (snd (instances w ! i)))\<rparr>)"
  using assms
proof (induction tcs arbitrary: w)
  case Nil
  then show ?case by simp
next
  case (Cons tc tcs)
  obtain r s' where c: "call_tcase tc (snd (instances w ! i)) = (r, s')"
    by (cases "call_tcase tc (snd (instances w ! i))") auto
  let ?w1 = "w\<lparr>invocations := invocations w @ [(i, tc, i)]\<rparr>"
  let ?w2 = "?w1\<lparr>instances := (instances ?w1)[i := (fst (instances ?w1 ! i), s')]\<rparr>"
  have t: "testsuite_test i tc i w = (r, ?w2)"
    using Cons.prems c by (simp add: testsuite_test_def Let_def)
  show ?case
  proof (cases r)
    case (Inl sig)
    with t c show ?thesis by simp
  next
    case (Inr u)
    have len: "i < length (instances ?w2)"
      using Cons.prems by simp
    have st: "instances ?w2 ! i = (fst (instances w ! i), s')"
      using Cons.prems by simp
    show ?thesis
      using t c Inr Cons.IH [OF len] Cons.prems by (simp add: st)
  qed
qed

lemma called_all:
  "fst (call_tcases tcs s) = Inr () \<Longrightarrow> called_tcases tcs s = tcs"
proof (induction tcs arbitrary: s)
  case Nil
  then show ?case by simp
next
  case (Cons tc tcs)
  then show ?case
    by (cases "call_tcase tc s") (auto split: sum.splits)
qed

text \<open>
  Claim C7. For a suite class, the dispatcher builds exactly one new instance, with
  fresh counters, and leaves the instances that exist as they are. Every call of
  \<^verbatim>\<open>test\<close> that it makes has the new instance as receiver and as argument. The
  engine of the instance ends as the discovered test cases leave it when they are
  called in turn on one engine, each starting from the counters of the one before:
  the counters are never reset in between. When no test case raises, every
  discovered test case is called.
\<close>

theorem run_tsuite_class_one_instance:
  assumes "tcs = order_tcases e (get_all_tcases e cl)"
    and "i = length (instances w)"
  shows "run_tsuite_class e cl w =
       (fst (call_tcases tcs fresh_asserts),
        w\<lparr>instances := instances w @ [(cl, snd (call_tcases tcs fresh_asserts))],
          invocations := invocations w @
            map (\<lambda>tc. (i, tc, i)) (called_tcases tcs fresh_asserts)\<rparr>) \<and>
     (fst (call_tcases tcs fresh_asserts) = Inr () \<longrightarrow>
        called_tcases tcs fresh_asserts = tcs)"
proof -
  let ?w1 = "w\<lparr>instances := instances w @ [(cl, fresh_asserts)]\<rparr>"
  have len: "i < length (instances ?w1)"
    using assms(2) by simp
  have "run_tsuite_class e cl w = for_each (\<lambda>tc. testsuite_test i tc i) tcs ?w1"
    using assms by (simp add: run_tsuite_class_def instantiate_def Let_def)
  then show ?thesis
    using for_each_tcases [OF len, of tcs] assms(2) called_all [of tcs fresh_asserts]
    by simp
qed

theorem run_tsuite_class_one_instance_witness:
  "order_tcases my_env (get_all_tcases my_env my_suite) =
     [Function ''test_order''
        [Call_self ''a_lt'' [PInt 1, PInt 2], Call_self ''a_not_null'' [PStr ''x'']],
      Function ''test_sum'' [Call_self ''assert_equal'' [PInt 2, PInt 2]]] \<and>
   length (instances my_world) = 0 \<and>
   fst (run_tsuite_class my_env my_suite my_world) = Inr () \<and>
   instances (snd (run_tsuite_class my_env my_suite my_world)) =
     [(my_suite, \<lparr>pass_count = 3, attempted_count = 3\<rparr>)] \<and>
   invocations (snd (run_tsuite_class my_env my_suite my_world)) =
     [(0, Function ''test_order''
            [Call_self ''a_lt'' [PInt 1, PInt 2], Call_self ''a_not_null'' [PStr ''x'']], 0),
      (0, Function ''test_sum'' [Call_self ''assert_equal'' [PInt 2, PInt 2]], 0)]"
proof -
  define tcs where "tcs = order_tcases my_env (get_all_tcases my_env my_suite)"
  have t: "tcs =
     [Function ''test_order''
        [Call_self ''a_lt'' [PInt 1, PInt 2], Call_self ''a_not_null'' [PStr ''x'']],
      Function ''test_sum'' [Call_self ''assert_equal'' [PInt 2, PInt 2]]]"
    unfolding tcs_def by code_simp
  have l: "0 = length (instances my_world)"
    by (simp add: my_world_def)
  have c: "call_tcases
     [Function ''test_order''
        [Call_self ''a_lt'' [PInt 1, PInt 2], Call_self ''a_not_null'' [PStr ''x'']],
      Function ''test_sum'' [Call_self ''assert_equal'' [PInt 2, PInt 2]]] fresh_asserts =
     (Inr (), \<lparr>pass_count = 3, attempted_count = 3\<rparr>)"
    by code_simp
  show ?thesis
    using run_tsuite_class_one_instance [OF tcs_def l] t c l
    by (simp add: my_world_def tcs_def [symmetric])
qed

section \<open>Exits of the run command\<close>

lemma for_each_map: "for_each (\<lambda>i. body (g i)) is w = for_each body (map g is) w"
  by (induction "is" arbitrary: w) (auto split: prod.splits sum.splits)

lemma run_tsuites_for_each:
  "run_tsuites e tgroup tsuites w = for_each (run_tsuite e tgroup) tsuites w"
  using for_each_map [of "run_tsuite e tgroup" "\<lambda>i. tsuites ! i" "[0..<length tsuites]" w]
  by (simp add: run_tsuites_def map_nth)

lemma for_each_append:
  "for_each body (xs @ ys) w =
     (case for_each body xs w of
        (Inl sig, w') \<Rightarrow> (Inl sig, w')
      | (Inr u, w') \<Rightarrow> for_each body ys w')"
  by (induction xs arbitrary: w) (auto split: prod.splits sum.splits)

lemma for_each_raises:
  "for_each body xs w = (Inl sig, w') \<Longrightarrow> \<exists>x w1. x \<in> set xs \<and> body x w1 = (Inl sig, w')"
proof (induction xs arbitrary: w)
  case Nil
  then show ?case by simp
next
  case (Cons x xs)
  show ?case
  proof (cases "body x w")
    case (Pair r w2)
    show ?thesis
    proof (cases r)
      case (Inl s)
      with Pair Cons.prems have "body x w = (Inl sig, w')" by simp
      then show ?thesis by auto
    next
      case (Inr u)
      with Pair Cons.prems have "for_each body xs w2 = (Inl sig, w')" by simp
      with Cons.IH show ?thesis by fastforce
    qed
  qed
qed

lemma assert_call_no_exit: "fst (assert_call k args s) \<noteq> Inl (SystemExit n)"
  by (auto simp: assert_call_def split: option.splits bool.splits)

lemma call_method_no_exit: "fst (call_method name args s) \<noteq> Inl (SystemExit n)"
  by (auto simp: call_method_def assert_call_no_exit split: option.splits)

lemma exec_body_no_exit: "fst (exec_body sts s) \<noteq> Inl (SystemExit n)"
proof (induction sts arbitrary: s)
  case Nil
  then show ?case by simp
next
  case (Cons st sts)
  obtain name args where st: "st = Call_self name args"
    by (cases st) auto
  show ?case
  proof (cases "call_method name args s")
    case (Pair r s')
    with call_method_no_exit [of name args s n] have "r \<noteq> Inl (SystemExit n)" by simp
    with Pair st Cons.IH [of s'] show ?thesis
      by (cases r) auto
  qed
qed

lemma call_tcase_no_exit: "fst (call_tcase tc s) \<noteq> Inl (SystemExit n)"
  by (cases tc) (simp_all add: exec_body_no_exit)

lemma call_tcases_no_exit: "fst (call_tcases tcs s) \<noteq> Inl (SystemExit n)"
proof (induction tcs arbitrary: s)
  case Nil
  then show ?case by simp
next
  case (Cons tc tcs)
  show ?case
  proof (cases "call_tcase tc s")
    case (Pair r s')
    with call_tcase_no_exit [of tc s n] have "r \<noteq> Inl (SystemExit n)" by simp
    with Pair Cons.IH [of s'] show ?thesis
      by (cases r) auto
  qed
qed

lemma run_tsuite_class_no_exit: "fst (run_tsuite_class e cl w) \<noteq> Inl (SystemExit n)"
proof -
  let ?w1 = "w\<lparr>instances := instances w @ [(cl, fresh_asserts)]\<rparr>"
  have len: "length (instances w) < length (instances ?w1)" by simp
  have "fst (run_tsuite_class e cl w) =
      fst (call_tcases (order_tcases e (get_all_tcases e cl)) fresh_asserts)"
    using for_each_tcases [OF len, of "order_tcases e (get_all_tcases e cl)"]
    by (simp add: run_tsuite_class_def instantiate_def Let_def)
  then show ?thesis
    by (simp add: call_tcases_no_exit)
qed

lemma run_classes_no_exit: "fst (for_each (run_tsuite_class e) cls w) \<noteq> Inl (SystemExit n)"
proof
  assume a: "fst (for_each (run_tsuite_class e) cls w) = Inl (SystemExit n)"
  then obtain w' where "for_each (run_tsuite_class e) cls w = (Inl (SystemExit n), w')"
    by (cases "for_each (run_tsuite_class e) cls w") auto
  from for_each_raises [OF this] obtain cl w1 where "run_tsuite_class e cl w1 = (Inl (SystemExit n), w')"
    by blast
  with run_tsuite_class_no_exit [of e cl w1 n] show False by simp
qed

lemma run_tsuite_module:
  "run_tsuite e tgroup t w =
     (case module_of w tgroup t of
        None \<Rightarrow> (fst (run_tsuite e tgroup t w), w)
      | Some ts \<Rightarrow>
          if get_all_tsuite_classes e ts = [] then
            (Inl (SystemExit 1), stderr_write NO_SUBCLASSES_MSG w)
          else for_each (run_tsuite_class e) (order_classes e (get_all_tsuite_classes e ts)) w)"
  by (simp add: run_tsuite_def module_of_def Let_def sys_exit_def split: option.splits)

lemma run_tsuite_exit:
  assumes "run_tsuite e tgroup t w = (Inl (SystemExit n), w')"
  shows "n = 1 \<and> (\<exists>ts. module_of w tgroup t = Some ts \<and> get_all_tsuite_classes e ts = [] \<and>
      w' = stderr_write NO_SUBCLASSES_MSG w)"
proof (cases "module_of w tgroup t")
  case None
  then have "fst (run_tsuite e tgroup t w) \<noteq> Inl (SystemExit n)"
    by (simp add: run_tsuite_def module_of_def Let_def split: option.splits)
  with assms show ?thesis by simp
next
  case (Some ts)
  show ?thesis
  proof (cases "get_all_tsuite_classes e ts = []")
    case True
    with Some assms run_tsuite_module [of e tgroup t w] show ?thesis by simp
  next
    case False
    with Some assms run_tsuite_module [of e tgroup t w]
    have "for_each (run_tsuite_class e) (order_classes e (get_all_tsuite_classes e ts)) w
        = (Inl (SystemExit n), w')"
      by simp
    with run_classes_no_exit [of e "order_classes e (get_all_tsuite_classes e ts)" w n]
    show ?thesis by simp
  qed
qed

lemma run_tsuites_exit:
  assumes "run_tsuites e tgroup tsuites w = (Inl (SystemExit n), w')"
  shows "n = 1 \<and> (\<exists>w1 t ts. module_of w1 tgroup t = Some ts \<and>
      get_all_tsuite_classes e ts = [] \<and> w' = stderr_write NO_SUBCLASSES_MSG w1)"
proof -
  from assms have "for_each (run_tsuite e tgroup) tsuites w = (Inl (SystemExit n), w')"
    by (simp add: run_tsuites_for_each)
  from for_each_raises [OF this] obtain t w1
    where "run_tsuite e tgroup t w1 = (Inl (SystemExit n), w')"
    by blast
  from run_tsuite_exit [OF this] show ?thesis by blast
qed

lemma listdir_no_exit: "listdir w p \<noteq> Inl (SystemExit n)"
  by (simp add: listdir_def split: option.splits node.splits)

lemma runlists_in_no_exit: "runlists_in w ds rs \<noteq> Inl (SystemExit n)"
proof (induction ds arbitrary: rs)
  case Nil
  then show ?case by simp
next
  case (Cons d ds)
  show ?case
  proof (cases "listdir w d")
    case (Inl sig)
    with listdir_no_exit [of w d n] show ?thesis by simp
  next
    case (Inr fs)
    with Cons.IH show ?thesis by simp
  qed
qed

lemma get_runlists_no_exit: "get_runlists e w \<noteq> Inl (SystemExit n)"
proof (cases "listdir w CURRENT_WORKING_DIR")
  case (Inl sig)
  with listdir_no_exit [of w CURRENT_WORKING_DIR n] show ?thesis
    by (simp add: get_runlists_def get_all_dirs_def)
next
  case (Inr fs)
  then show ?thesis
    by (simp add: get_runlists_def get_all_dirs_def runlists_in_no_exit)
qed

lemma parse_runlist_no_exit: "parse_runlist w p \<noteq> Inl (SystemExit n)"
  by (simp add: parse_runlist_def read_file_def split: option.splits node.splits)

lemma run_runlist_tgroup:
  "run_runlist e rl w =
     (case parse_runlist w rl of
        Inl sig \<Rightarrow> (Inl sig, w)
      | Inr tsuites \<Rightarrow> run_tsuites e (tgroup_of w rl) tsuites w)"
  by (cases "CHR ''/'' \<in> set rl")
     (simp_all add: run_runlist_def tgroup_of_def Let_def split: sum.splits)

lemma run_runlist_exit:
  assumes "run_runlist e rl w = (Inl (SystemExit n), w')"
  shows "n = 1 \<and> (\<exists>w1 tgroup t ts. module_of w1 tgroup t = Some ts \<and>
      get_all_tsuite_classes e ts = [] \<and> w' = stderr_write NO_SUBCLASSES_MSG w1)"
proof (cases "parse_runlist w rl")
  case (Inl sig)
  with parse_runlist_no_exit [of w rl n] assms show ?thesis
    by (simp add: run_runlist_tgroup)
next
  case (Inr tsuites)
  with assms have "run_tsuites e (tgroup_of w rl) tsuites w = (Inl (SystemExit n), w')"
    by (simp add: run_runlist_tgroup)
  from run_tsuites_exit [OF this] show ?thesis by blast
qed

lemma run_tsuites_stops:
  assumes "run_tsuites e tgroup pre w = (Inr (), w1)"
    and "module_of w1 tgroup t = Some ts"
    and "get_all_tsuite_classes e ts = []"
  shows "run_tsuites e tgroup (pre @ t # post) w =
     (Inl (SystemExit 1), stderr_write NO_SUBCLASSES_MSG w1)"
  using assms run_tsuite_module [of e tgroup t w1]
  by (simp add: run_tsuites_for_each for_each_append)

text \<open>
  Claim C8. When no run list is found, the run command writes its message to the
  standard error stream and exits with status 1, and nothing else has happened. When
  the suites of a run list before some identifier have run and the module resolved
  for that identifier has no suite class, the command writes its message and exits
  with status 1 in the world that those earlier suites left: no later suite and no
  later run list is touched. And whenever the command exits, the status is 1 and the
  exit is one of these two.
\<close>

theorem run_exits_on_discovery_errors:
  "(get_runlists e w = Inr [] \<longrightarrow>
      cmd_run e w = (Inl (SystemExit 1), stderr_write NO_RUNLISTS_MSG w)) \<and>
   (get_runlists e w = Inr rls \<and> rls \<noteq> [] \<and>
    order_strings e rls = rpre @ rl # rpost \<and>
    for_each (run_runlist e) rpre w = (Inr (), w0) \<and>
    parse_runlist w0 rl = Inr (pre @ t # post) \<and>
    run_tsuites e (tgroup_of w0 rl) pre w0 = (Inr (), w1) \<and>
    module_of w1 (tgroup_of w0 rl) t = Some ts \<and> get_all_tsuite_classes e ts = [] \<longrightarrow>
      cmd_run e w = (Inl (SystemExit 1), stderr_write NO_SUBCLASSES_MSG w1)) \<and>
   (cmd_run e w = (Inl (SystemExit n), w') \<longrightarrow>
      n = 1 \<and>
      ((get_runlists e w = Inr [] \<and> w' = stderr_write NO_RUNLISTS_MSG w) \<or>
       (\<exists>w1 tgroup t ts. module_of w1 tgroup t = Some ts \<and>
          get_all_tsuite_classes e ts = [] \<and> w' = stderr_write NO_SUBCLASSES_MSG w1)))"
proof (intro conjI impI)
  assume "get_runlists e w = Inr []"
  then show "cmd_run e w = (Inl (SystemExit 1), stderr_write NO_RUNLISTS_MSG w)"
    by (simp add: cmd_run_def sys_exit_def)
next
  assume a: "get_runlists e w = Inr rls \<and> rls \<noteq> [] \<and>
    order_strings e rls = rpre @ rl # rpost \<and>
    for_each (run_runlist e) rpre w = (Inr (), w0) \<and>
    parse_runlist w0 rl = Inr (pre @ t # post) \<and>
    run_tsuites e (tgroup_of w0 rl) pre w0 = (Inr (), w1) \<and>
    module_of w1 (tgroup_of w0 rl) t = Some ts \<and> get_all_tsuite_classes e ts = []"
  then have ne: "rls \<noteq> []"
    by simp
  from a have "run_tsuites e (tgroup_of w0 rl) (pre @ t # post) w0 =
      (Inl (SystemExit 1), stderr_write NO_SUBCLASSES_MSG w1)"
    using run_tsuites_stops by blast
  with a have "run_runlist e rl w0 = (Inl (SystemExit 1), stderr_write NO_SUBCLASSES_MSG w1)"
    by (simp add: run_runlist_tgroup)
  with a have "for_each (run_runlist e) (rpre @ rl # rpost) w =
      (Inl (SystemExit 1), stderr_write NO_SUBCLASSES_MSG w1)"
    by (simp add: for_each_append)
  with a ne show "cmd_run e w = (Inl (SystemExit 1), stderr_write NO_SUBCLASSES_MSG w1)"
    by (simp add: cmd_run_def)
next
  assume x: "cmd_run e w = (Inl (SystemExit n), w')"
  show "n = 1"
  proof (cases "get_runlists e w")
    case (Inl sig)
    with x get_runlists_no_exit [of e w n] show ?thesis
      by (simp add: cmd_run_def)
  next
    case (Inr rls)
    show ?thesis
    proof (cases "rls = []")
      case True
      with Inr x show ?thesis by (simp add: cmd_run_def sys_exit_def)
    next
      case False
      with Inr x have "for_each (run_runlist e) (order_strings e rls) w = (Inl (SystemExit n), w')"
        by (simp add: cmd_run_def)
      from for_each_raises [OF this] obtain r w1
        where "run_runlist e r w1 = (Inl (SystemExit n), w')"
        by blast
      from run_runlist_exit [OF this] show ?thesis by blast
    qed
  qed
next
  assume x: "cmd_run e w = (Inl (SystemExit n), w')"
  show "(get_runlists e w = Inr [] \<and> w' = stderr_write NO_RUNLISTS_MSG w) \<or>
       (\<exists>w1 tgroup t ts. module_of w1 tgroup t = Some ts \<and>
          get_all_tsuite_classes e ts = [] \<and> w' = stderr_write NO_SUBCLASSES_MSG w1)"
  proof (cases "get_runlists e w")
    case (Inl sig)
    with x get_runlists_no_exit [of e w n] show ?thesis
      by (simp add: cmd_run_def)
  next
    case (Inr rls)
    show ?thesis
    proof (cases "rls = []")
      case True
      with Inr x show ?thesis by (simp add: cmd_run_def sys_exit_def)
    next
      case False
      with Inr x have "for_each (run_runlist e) (order_strings e rls) w = (Inl (SystemExit n), w')"
        by (simp add: cmd_run_def)
      from for_each_raises [OF this] obtain r w1
        where "run_runlist e r w1 = (Inl (SystemExit n), w')"
        by blast
      from run_runlist_exit [OF this] show ?thesis by blast
    qed
  qed
qed

theorem run_exits_on_discovery_errors_witness:
  "get_runlists my_env scaffold_world = Inr [] \<and>
   fst (cmd_run my_env scaffold_world) = Inl (SystemExit 1) \<and>
   stderr (snd (cmd_run my_env scaffold_world)) = [NO_RUNLISTS_MSG] \<and>
   instances (snd (cmd_run my_env scaffold_world)) = [] \<and>
   get_runlists my_env exit_world = Inr [''grp/RUNLIST''] \<and>
   parse_runlist exit_world ''grp/RUNLIST'' = Inr ([''mysuite.py''] @ ''helpers.py'' # [''mysuite.py'']) \<and>
   fst (run_tsuites my_env ''grp'' [''mysuite.py''] exit_world) = Inr () \<and>
   module_of (snd (run_tsuites my_env ''grp'' [''mysuite.py''] exit_world)) ''grp'' ''helpers.py''
     = Some helpers_module \<and>
   get_all_tsuite_classes my_env helpers_module = [] \<and>
   cmd_run my_env exit_world =
     (Inl (SystemExit 1),
      stderr_write NO_SUBCLASSES_MSG (snd (run_tsuites my_env ''grp'' [''mysuite.py''] exit_world))) \<and>
   map snd (instances (snd (cmd_run my_env exit_world))) =
     [\<lparr>pass_count = 3, attempted_count = 3\<rparr>, \<lparr>pass_count = 0, attempted_count = 0\<rparr>] \<and>
   length (invocations (snd (cmd_run my_env exit_world))) = 3"
proof -
  let ?w1 = "snd (run_tsuites my_env ''grp'' [''mysuite.py''] exit_world)"
  have g0: "get_runlists my_env scaffold_world = Inr []"
    by code_simp
  have c0: "cmd_run my_env scaffold_world =
      (Inl (SystemExit 1), stderr_write NO_RUNLISTS_MSG scaffold_world)"
    using run_exits_on_discovery_errors [of my_env scaffold_world] g0 by blast
  have g1: "get_runlists my_env exit_world = Inr [''grp/RUNLIST'']"
    by code_simp
  have o1: "order_strings my_env [''grp/RUNLIST''] = [] @ ''grp/RUNLIST'' # []"
    by (simp add: my_env_def)
  have f1: "for_each (run_runlist my_env) [] exit_world = (Inr (), exit_world)"
    by simp
  have p1: "parse_runlist exit_world ''grp/RUNLIST'' =
      Inr ([''mysuite.py''] @ ''helpers.py'' # [''mysuite.py''])"
    by code_simp
  have tg: "tgroup_of exit_world ''grp/RUNLIST'' = ''grp''"
    by code_simp
  have r1: "fst (run_tsuites my_env ''grp'' [''mysuite.py''] exit_world) = Inr ()"
    by code_simp
  then have r1': "run_tsuites my_env (tgroup_of exit_world ''grp/RUNLIST'') [''mysuite.py''] exit_world
      = (Inr (), ?w1)"
    by (simp add: tg prod_eq_iff)
  have m1: "module_of ?w1 ''grp'' ''helpers.py'' = Some helpers_module"
    by code_simp
  have e1: "get_all_tsuite_classes my_env helpers_module = []"
    by code_simp
  have c1: "cmd_run my_env exit_world =
      (Inl (SystemExit 1), stderr_write NO_SUBCLASSES_MSG ?w1)"
    using run_exits_on_discovery_errors [of my_env exit_world "[''grp/RUNLIST'']" "[]"
        "''grp/RUNLIST''" "[]" exit_world "[''mysuite.py'']" "''helpers.py''" "[''mysuite.py'']"
        ?w1 helpers_module]
      g1 o1 f1 p1 r1' m1 e1
    by (simp add: tg)
  have i1: "map snd (instances ?w1) =
      [\<lparr>pass_count = 3, attempted_count = 3\<rparr>, \<lparr>pass_count = 0, attempted_count = 0\<rparr>]"
    by code_simp
  have l1: "length (invocations ?w1) = 3"
    by code_simp
  show ?thesis
    using g0 c0 g1 p1 r1 m1 e1 c1 i1 l1
    by (simp add: stderr_write_def scaffold_world_def)
qed

end
